theory Spec2Isabelle
  imports
    Complex_Main
    "HOL-Library.Multiset"
    "HOL-Library.FSet"
    "HOL-Library.Char_ord"
    "HOL-Library.List_Lexorder"
begin

section \<open>Python values and exceptions\<close>

text \<open>
  The values that reach the team field of a tick, a round-end row or a roster row:
  \<^verbatim>\<open>None\<close>, booleans, integers and strings. Strings are byte strings; \<^verbatim>\<open>str.upper\<close>
  is modelled on the ASCII letters, every other character is left as it is.
\<close>

datatype pyval = PNone | PBool bool | PInt int | PStr string

datatype py_error = IndexError | KeyError string | Raised string

fun truthy :: "pyval \<Rightarrow> bool" where
  "truthy PNone = False"
| "truthy (PBool b) = b"
| "truthy (PInt n) = (n \<noteq> 0)"
| "truthy (PStr s) = (s \<noteq> [])"

definition digit_char :: "nat \<Rightarrow> char" where
  "digit_char d = ''0123456789'' ! d"

fun digits :: "nat \<Rightarrow> string" where
  "digits n = (if n < 10 then [digit_char n] else digits (n div 10) @ [digit_char (n mod 10)])"

declare digits.simps [simp del]

definition str_int :: "int \<Rightarrow> string" where
  "str_int i = (if i < 0 then CHR ''-'' # digits (nat (- i)) else digits (nat i))"

fun py_str :: "pyval \<Rightarrow> string" where
  "py_str PNone = ''None''"
| "py_str (PBool b) = (if b then ''True'' else ''False'')"
| "py_str (PInt n) = str_int n"
| "py_str (PStr s) = s"

definition upper_char :: "char \<Rightarrow> char" where
  "upper_char c =
     (case map_of (zip ''abcdefghijklmnopqrstuvwxyz'' ''ABCDEFGHIJKLMNOPQRSTUVWXYZ'') c of
        Some u \<Rightarrow> u
      | None \<Rightarrow> c)"

definition upper :: "string \<Rightarrow> string" where
  "upper s = map upper_char s"

section \<open>parser.py: team normalisation\<close>

text \<open>
  \<^verbatim>\<open>normalize_team_name\<close>: a falsy value gives \<^verbatim>\<open>None\<close>; otherwise the upper-cased
  \<^verbatim>\<open>str\<close> of the value is looked up in the two tuples, in the source's order.
\<close>

definition normalize_team_name :: "pyval \<Rightarrow> string option" where
  "normalize_team_name team_name =
     (if \<not> truthy team_name then None
      else let team_str = upper (py_str team_name) in
        if team_str \<in> set [''CT'', ''COUNTERTERRORIST'', ''COUNTER-TERRORIST'', ''3''] then Some ''CT''
        else if team_str \<in> set [''T'', ''TERRORIST'', ''TERRORISTS'', ''2''] then Some ''T''
        else None)"

text \<open>A result of the normalisation, read again as a Python value.\<close>

fun team_value :: "string option \<Rightarrow> pyval" where
  "team_value None = PNone"
| "team_value (Some s) = PStr s"

text \<open>
  The recognised team codes: the integers 3 and 2, and the strings that are one of the
  eight literals once upper-cased.
\<close>

definition ct_codes :: "pyval set" where
  "ct_codes = {PInt 3} \<union>
     {PStr s | s. upper s \<in> {''CT'', ''COUNTERTERRORIST'', ''COUNTER-TERRORIST'', ''3''}}"

definition t_codes :: "pyval set" where
  "t_codes = {PInt 2} \<union>
     {PStr s | s. upper s \<in> {''T'', ''TERRORIST'', ''TERRORISTS'', ''2''}}"

section \<open>window.py: footstep downsampling\<close>

text \<open>
  \<^verbatim>\<open>np.linspace(start, stop, num, dtype=int)\<close>, from NumPy's documented behaviour: no
  sample for \<^verbatim>\<open>num = 0\<close>, the start alone for \<^verbatim>\<open>num = 1\<close>, otherwise the samples
  \<^verbatim>\<open>start + i * step\<close> with \<^verbatim>\<open>step = (stop - start) / (num - 1)\<close>, the last one set to
  \<^verbatim>\<open>stop\<close>, each rounded down. The products are taken in exact rational arithmetic;
  the rounding of float64 is not modelled.
\<close>

definition linspace_int :: "int \<Rightarrow> int \<Rightarrow> nat \<Rightarrow> int list" where
  "linspace_int start stop num =
     (if num = 0 then []
      else if num = 1 then [start]
      else map (\<lambda>i. if i = num - 1 then stop
                     else \<lfloor>rat_of_int start
                            + rat_of_nat i * ((rat_of_int stop - rat_of_int start) / rat_of_nat (num - 1))\<rfloor>)
               [0..<num])"

text \<open>Python's \<^verbatim>\<open>xs[i]\<close>: a negative index counts from the end, anything else out of range raises.\<close>

definition py_getitem :: "'a list \<Rightarrow> int \<Rightarrow> py_error + 'a" where
  "py_getitem xs i =
     (if 0 \<le> i \<and> i < int (length xs) then Inr (xs ! nat i)
      else if i < 0 \<and> - int (length xs) \<le> i then Inr (xs ! nat (int (length xs) + i))
      else Inl IndexError)"

text \<open>The comprehension \<^verbatim>\<open>[footsteps[i] for i in idxs]\<close>: the first failing read raises.\<close>

fun gather :: "'a list \<Rightarrow> int list \<Rightarrow> py_error + 'a list" where
  "gather xs [] = Inr []"
| "gather xs (i # idxs) =
     (case py_getitem xs i of
        Inl e \<Rightarrow> Inl e
      | Inr x \<Rightarrow> (case gather xs idxs of Inl e \<Rightarrow> Inl e | Inr ys \<Rightarrow> Inr (x # ys)))"

text \<open>\<^verbatim>\<open>HeatmapWindow.apply_downsampling\<close>, with \<^verbatim>\<open>self.downsample_n\<close> as first argument.\<close>

definition apply_downsampling :: "int \<Rightarrow> 'a list \<Rightarrow> py_error + 'a list" where
  "apply_downsampling downsample_n footsteps =
     (let n = max 1 downsample_n in
      if n \<le> 1 \<or> length footsteps \<le> 1 then Inr footsteps
      else gather footsteps
             (linspace_int 0 (int (length footsteps) - 1) (nat (int (length footsteps) div n))))"


section \<open>parser.py: the cache folder\<close>

text \<open>
  The files of \<^verbatim>\<open>CACHE_FOLDER\<close> in the order \<^verbatim>\<open>os.walk\<close> lists them. A file has its
  path, the size \<^verbatim>\<open>os.path.getsize\<close> reports, the time \<^verbatim>\<open>os.path.getmtime\<close> reports,
  whether \<^verbatim>\<open>os.remove\<close> succeeds on it (it raises otherwise), and its content.
\<close>

record 'a cfile =
  path :: string
  fsize :: nat
  mtime :: rat
  removable :: bool
  content :: 'a

definition dir_total :: "'a cfile list \<Rightarrow> int" where
  "dir_total dir = (\<Sum>f\<leftarrow>dir. int (fsize f))"

definition os_remove :: "string \<Rightarrow> 'a cfile list \<Rightarrow> 'a cfile list" where
  "os_remove fp dir = filter (\<lambda>g. path g \<noteq> fp) dir"

text \<open>
  The loop of \<^verbatim>\<open>check_cache_folder_size\<close> over \<^verbatim>\<open>files_sorted\<close>, on the pair of
  \<^verbatim>\<open>total_size\<close> and the folder: it stops at the first file met with the total within
  the limit; a removal that raises leaves the total as it is and the loop goes on.
\<close>

fun evict :: "int \<Rightarrow> 'a cfile list \<Rightarrow> int \<times> 'a cfile list \<Rightarrow> int \<times> 'a cfile list" where
  "evict max_size_bytes [] (total_size, dir) = (total_size, dir)"
| "evict max_size_bytes (f # files_sorted) (total_size, dir) =
     (if total_size \<le> max_size_bytes then (total_size, dir)
      else if removable f
        then evict max_size_bytes files_sorted (total_size - int (fsize f), os_remove (path f) dir)
        else evict max_size_bytes files_sorted (total_size, dir))"

text \<open>
  \<^verbatim>\<open>check_cache_folder_size\<close>; \<^verbatim>\<open>sorted\<close> is stable, as \<^const>\<open>sort_key\<close> is. The result
  is the folder it leaves.
\<close>

definition check_cache_folder_size :: "int \<Rightarrow> 'a cfile list \<Rightarrow> 'a cfile list" where
  "check_cache_folder_size max_size_bytes dir =
     (let total_size = dir_total dir in
      if total_size > max_size_bytes
      then snd (evict max_size_bytes (sort_key mtime dir) (total_size, dir))
      else dir)"

text \<open>The default limit, \<^verbatim>\<open>2 * 1024 * 1024 * 1024\<close> bytes.\<close>

definition default_max_size_bytes :: int where
  "default_max_size_bytes = 2 * 1024 * 1024 * 1024"

text \<open>The files of a folder that \<^verbatim>\<open>check_cache_folder_size\<close> deleted, oldest first.\<close>

definition removed_files :: "int \<Rightarrow> 'a cfile list \<Rightarrow> 'a cfile list" where
  "removed_files max_size_bytes dir =
     filter (\<lambda>f. f \<notin> set (check_cache_folder_size max_size_bytes dir)) (sort_key mtime dir)"

text \<open>Two folders used as concrete inputs below.\<close>

definition locked_oldest_dir :: "unit cfile list" where
  "locked_oldest_dir =
     [\<lparr>path = ''demcache_a.dem.pkl'', fsize = 10, mtime = 1, removable = False, content = ()\<rparr>,
      \<lparr>path = ''demcache_b.dem.pkl'', fsize = 10, mtime = 2, removable = True, content = ()\<rparr>]"

definition three_file_dir :: "unit cfile list" where
  "three_file_dir =
     [\<lparr>path = ''demcache_a.dem.pkl'', fsize = 5, mtime = 3, removable = True, content = ()\<rparr>,
      \<lparr>path = ''demcache_b.dem.pkl'', fsize = 7, mtime = 1, removable = True, content = ()\<rparr>,
      \<lparr>path = ''demcache_c.dem.pkl'', fsize = 4, mtime = 2, removable = True, content = ()\<rparr>]"

section \<open>heatmap.py: rendering a density grid\<close>

subsection \<open>float32 arithmetic\<close>

text \<open>
  The grid of \<^verbatim>\<open>calc_heatmap_np\<close> has dtype \<^verbatim>\<open>np.float32\<close>, and NumPy casts a Python
  scalar to the dtype of the array it meets, so every operation of
  \<^verbatim>\<open>heatmap_to_qimage\<close> is a float32 operation: the exact result rounded to the nearest
  float32, ties to the even significand. A finite float32 is a real number here; the
  significand has 24 bits, the exponent of a normal number is at least \<open>-126\<close>, and below
  it the spacing stays \<open>2 powi (-149)\<close>. Overflow to infinity and NaN are not modelled:
  the properties below bound the two parameters.
\<close>

definition rne :: "real \<Rightarrow> int" where
  "rne x =
     (let f = \<lfloor>x\<rfloor>; r = x - of_int f
      in if r < 1 / 2 then f
         else if 1 / 2 < r then f + 1
         else if even f then f
         else f + 1)"

definition float32 :: "real \<Rightarrow> real" where
  "float32 x =
     (if x = 0 then 0
      else
        let e = max (- 126) \<lfloor>log 2 \<bar>x\<bar>\<rfloor>;
            u = 2 powi (e - 23)
        in of_int (rne (x / u)) * u)"

subsection \<open>The image\<close>

text \<open>
  A grid is the list of its rows, of float32 values. A colormap gives the three colour
  bytes of a value in \<open>[0, 1]\<close>; \<^verbatim>\<open>colormaps.get_cmap\<close> is a partial lookup by name, and
  the fallback \<^verbatim>\<open>"jet"\<close> is always registered.
\<close>

type_synonym grid = "real list list"

type_synonym colormap = "real \<Rightarrow> nat \<times> nat \<times> nat"

type_synonym pixel = "nat \<times> nat \<times> nat \<times> nat"

datatype qimage = Uninitialised nat nat | Image "pixel list list"

text \<open>\<^verbatim>\<open>np.clip(x, lo, hi)\<close> is \<^verbatim>\<open>minimum(maximum(x, lo), hi)\<close>.\<close>

definition clip :: "real \<Rightarrow> real \<Rightarrow> real \<Rightarrow> real" where
  "clip x lo hi = min (max x lo) hi"

text \<open>
  \<^verbatim>\<open>x ** gamma\<close> on a value \<open>x \<ge> 0\<close>, with the exponent cast to float32; NumPy gives 1
  for the exponent 0. The power of the C library is taken as correctly rounded.
\<close>

definition np_power :: "real \<Rightarrow> real \<Rightarrow> real" where
  "np_power x gamma = (if float32 gamma = 0 then 1 else float32 (x powr float32 gamma))"

text \<open>\<^verbatim>\<open>astype(np.uint8)\<close> on a value of \<open>[0, 255]\<close> drops the fraction.\<close>

definition to_uint8 :: "real \<Rightarrow> nat" where
  "to_uint8 x = nat \<lfloor>x\<rfloor> mod 256"

text \<open>
  \<^verbatim>\<open>heatmap_to_qimage\<close>. Line 33 is four float32 operations on every cell, with
  \<^verbatim>\<open>contrast\<close> and \<^verbatim>\<open>brightness\<close> cast to float32 first; line 41 is one more.
\<close>

definition heatmap_to_qimage ::
  "(string \<Rightarrow> colormap option) \<Rightarrow> colormap \<Rightarrow> grid \<Rightarrow> string \<Rightarrow> real \<Rightarrow> real \<Rightarrow> real \<Rightarrow> qimage" where
  "heatmap_to_qimage colormaps jet data cmap gamma brightness contrast =
     (if concat data = [] then Uninitialised 1 1
      else
        let flipped = rev data;
            vmax = Max (set (concat flipped));
            vmin = Min (set (concat flipped));
            norm0 = (if vmax > vmin
                     then map (map (\<lambda>v. np_power (float32 (float32 (v - vmin) / float32 (vmax - vmin))) gamma))
                            flipped
                     else map (map (\<lambda>v. 0)) flipped);
            norm1 = map (map (\<lambda>v.
                      float32 (float32 (float32 (float32 contrast * float32 (v - float32 0.5))
                                          + float32 0.5)
                                 + float32 brightness)))
                      norm0;
            norm2 = map (map (\<lambda>v. clip v 0 1)) norm1;
            cmap_obj = (case colormaps cmap of Some c \<Rightarrow> c | None \<Rightarrow> jet)
        in Image (map (map (\<lambda>v. case cmap_obj v of
                                   (r, g, b) \<Rightarrow> (r, g, b, to_uint8 (float32 (v * 255)))))
                    norm2))"

text \<open>The alpha channel of an image, row by row.\<close>

fun alphas :: "qimage \<Rightarrow> nat list list" where
  "alphas (Uninitialised w h) = []"
| "alphas (Image rows) = map (map (\<lambda>(r, g, b, a). a)) rows"

text \<open>
  The value every cell of a flat grid has after the brightness and contrast step and
  the clipping: the normalised value is 0 there.
\<close>

definition flat_level :: "real \<Rightarrow> real \<Rightarrow> real" where
  "flat_level brightness contrast =
     clip (float32 (float32 (float32 (float32 contrast * float32 (0 - float32 0.5)) + float32 0.5)
                    + float32 brightness))
          0 1"

section \<open>parser.py: parsing a demo through the two caches\<close>

subsection \<open>Data\<close>

text \<open>
  The attributes of a \<^verbatim>\<open>DemoFileParser\<close> (\<open>demo_file\<close> is \<^verbatim>\<open>self.file\<close>). A footstep is the tuple
  \<^verbatim>\<open>(ix, xx, yy, pname, norm_team)\<close>; a round is the pair of \<^verbatim>\<open>"winner"\<close> and
  \<^verbatim>\<open>"round_num"\<close>. Coordinates are opaque values of type \<open>'c\<close>, a pandas DataFrame
  is an opaque value of type \<open>'df\<close>.
\<close>

type_synonym header = "string \<rightharpoonup> string"

type_synonym 'c footstep = "int \<times> 'c \<times> 'c \<times> string option \<times> string option"

type_synonym round_entry = "string \<times> int"

record ('c, 'df) demo =
  demo_file :: string
  header :: header
  footsteps :: "'c footstep list"
  rounds :: "round_entry list"
  players :: "string fset"
  player_teams :: "string \<rightharpoonup> string"
  player_deaths :: "'df option"
  weapon_popularity :: "'df option"

text \<open>
  The dictionary that is pickled and kept in \<^verbatim>\<open>demoDataCache\<close>. A key may be missing
  from a dictionary read back from a file; for the two DataFrame keys a missing key and
  the value \<^verbatim>\<open>None\<close> are read alike (\<^verbatim>\<open>.get(key, None)\<close>).
\<close>

record ('c, 'df) stored =
  s_header :: "header option"
  s_footsteps :: "'c footstep list option"
  s_rounds :: "round_entry list option"
  s_players :: "string list option"
  s_player_teams :: "(string \<rightharpoonup> string) option"
  s_player_deaths :: "'df option"
  s_weapon_popularity :: "'df option"

text \<open>
  What a cache file holds: \<^verbatim>\<open>pickle\<close> is taken as a faithful codec, so a readable
  file holds the dictionary that was dumped; on any other file \<^verbatim>\<open>pickle.load\<close> raises.
\<close>

datatype ('c, 'df) artifact = Corrupt | Pickled "('c, 'df) stored"

text \<open>
  The two tiers: \<^verbatim>\<open>demoDataCache\<close> as the plain dictionary of the \<^verbatim>\<open>ImportError\<close>
  branch, keyed by \<^verbatim>\<open>self.file\<close>, and the files of \<^verbatim>\<open>CACHE_FOLDER\<close>, named relative to
  it.
\<close>

record ('c, 'df) world =
  mem :: "string \<rightharpoonup> ('c, 'df) stored"
  disk :: "('c, 'df) artifact cfile list"

subsection \<open>What the decoder returns for one file\<close>

record 'c tick =
  t_index :: int
  t_X :: "'c option"
  t_Y :: "'c option"
  t_player :: "string option"
  t_name :: "string option"
  t_team :: pyval
  t_team_name :: pyval

text \<open>
  The table of \<^verbatim>\<open>parse_ticks\<close>; a cell of a column the table lacks reads \<^verbatim>\<open>None\<close>.
  Whether the columns \<^verbatim>\<open>"player"\<close> and \<^verbatim>\<open>"team"\<close> exist decides which column
  \<^verbatim>\<open>ticks_df.get\<close> takes.
\<close>

record 'c ticks_df =
  player_column :: bool
  team_column :: bool
  tick_rows :: "'c tick list"

record round_row =
  r_winner :: pyval
  r_total_rounds_played :: "int option"

record info_row =
  i_name :: "string option"
  i_team_number :: "int option"

text \<open>
  The answers of \<^verbatim>\<open>demoparser2\<close> for one file; \<open>Inl\<close> is a raised exception with its
  message, \<open>Inr None\<close> the result \<^verbatim>\<open>None\<close>, an empty table has no rows.
  \<open>death_tables\<close> stands for lines 174 to 198, the two \<^verbatim>\<open>parse_event("player_death")\<close>
  calls with their pandas post-processing: they raise, or give \<^verbatim>\<open>weapon_popularity\<close>
  and \<^verbatim>\<open>player_deaths\<close>.
\<close>

record ('c, 'df) decoder =
  open_error :: "string option"
  parse_header :: "string + header"
  death_tables :: "string + ('df \<times> 'df)"
  parse_ticks :: "string + 'c ticks_df option"
  round_end :: "string + round_row list option"
  parse_player_info :: "string + info_row list option"

text \<open>
  What the file system does with the write of the new cache file: the file is written
  whole, \<^verbatim>\<open>pickle.dump\<close> raises after \<^verbatim>\<open>open\<close> truncated the file, or \<^verbatim>\<open>open\<close> raises.
  The arguments are the size, the modification time and the deletability of the file
  left behind.
\<close>

datatype write_result = Written nat rat bool | Truncated nat rat bool | Refused

subsection \<open>The cache path\<close>

text \<open>\<^verbatim>\<open>os.path.basename\<close> with the separator \<^verbatim>\<open>/\<close>.\<close>

definition basename :: "string \<Rightarrow> string" where
  "basename p = rev (takeWhile (\<lambda>c. c \<noteq> CHR ''/'') (rev p))"

definition safe_char :: "char \<Rightarrow> bool" where
  "safe_char c \<longleftrightarrow>
     c \<in> set ''abcdefghijklmnopqrstuvwxyzABCDEFGHIJKLMNOPQRSTUVWXYZ0123456789_.-''"

text \<open>\<^verbatim>\<open>re.sub(r"[^a-zA-Z0-9_.-]+", "_", base)\<close>: every maximal run of other characters becomes one underscore.\<close>

function re_sub_unsafe :: "string \<Rightarrow> string" where
  "re_sub_unsafe [] = []"
| "re_sub_unsafe (c # cs) =
     (if safe_char c then c # re_sub_unsafe cs
      else CHR ''_'' # re_sub_unsafe (dropWhile (\<lambda>d. \<not> safe_char d) cs))"
  by pat_completeness auto
termination
  by (relation "measure length") (auto simp: length_dropWhile_le less_Suc_eq_le)

definition external_cache_path :: "string \<Rightarrow> string" where
  "external_cache_path demo_path = ''demcache_'' @ re_sub_unsafe (basename demo_path) @ ''.pkl''"

definition isfile :: "'a cfile list \<Rightarrow> string \<Rightarrow> bool" where
  "isfile dir fp \<longleftrightarrow> fp \<in> set (map path dir)"

subsection \<open>Reading the caches\<close>

text \<open>
  \<^verbatim>\<open>_load_from_cache\<close>: every exception inside the \<^verbatim>\<open>try\<close> gives \<^verbatim>\<open>False\<close>. The
  attributes are assigned in the source's order, so a dictionary without
  \<^verbatim>\<open>"footsteps"\<close> has already replaced \<^verbatim>\<open>self.header\<close> when the \<^verbatim>\<open>KeyError\<close> is caught.
\<close>

definition load_from_cache ::
  "('c, 'df) world \<Rightarrow> ('c, 'df) demo \<Rightarrow> string \<Rightarrow> bool \<times> ('c, 'df) demo \<times> ('c, 'df) world" where
  "load_from_cache w self cache_file =
     (case find (\<lambda>f. path f = cache_file) (disk w) of
        None \<Rightarrow> (False, self, w)
      | Some f \<Rightarrow>
          (case content f of
             Corrupt \<Rightarrow> (False, self, w)
           | Pickled loaded_data \<Rightarrow>
               (case s_header loaded_data of
                  None \<Rightarrow> (False, self, w)
                | Some h \<Rightarrow>
                    (case s_footsteps loaded_data of
                       None \<Rightarrow> (False, self\<lparr>header := h\<rparr>, w)
                     | Some fs \<Rightarrow>
                         (True,
                          self\<lparr>header := h,
                               footsteps := fs,
                               rounds := (case s_rounds loaded_data of None \<Rightarrow> [] | Some r \<Rightarrow> r),
                               players := fset_of_list
                                  (case s_players loaded_data of None \<Rightarrow> [] | Some ps \<Rightarrow> ps),
                               player_teams :=
                                  (case s_player_teams loaded_data of None \<Rightarrow> Map.empty | Some t \<Rightarrow> t),
                               player_deaths := s_player_deaths loaded_data,
                               weapon_popularity := s_weapon_popularity loaded_data\<rparr>,
                          w\<lparr>mem := (mem w)(demo_file self \<mapsto> loaded_data)\<rparr>)))))"

text \<open>
  \<^verbatim>\<open>_load_from_memory_cache\<close>, the dictionary branch. It has no \<^verbatim>\<open>try\<close>: an entry
  without \<^verbatim>\<open>"header"\<close> or \<^verbatim>\<open>"footsteps"\<close> raises \<^verbatim>\<open>KeyError\<close>.
\<close>

definition load_from_memory_cache ::
  "('c, 'df) world \<Rightarrow> ('c, 'df) demo \<Rightarrow> py_error + bool \<times> ('c, 'df) demo" where
  "load_from_memory_cache w self =
     (case mem w (demo_file self) of
        None \<Rightarrow> Inr (False, self)
      | Some cached \<Rightarrow>
          (case s_header cached of
             None \<Rightarrow> Inl (KeyError ''header'')
           | Some h \<Rightarrow>
               (case s_footsteps cached of
                  None \<Rightarrow> Inl (KeyError ''footsteps'')
                | Some fs \<Rightarrow>
                    Inr (True,
                         self\<lparr>header := h,
                              footsteps := fs,
                              rounds := (case s_rounds cached of None \<Rightarrow> [] | Some r \<Rightarrow> r),
                              players := fset_of_list
                                 (case s_players cached of None \<Rightarrow> [] | Some ps \<Rightarrow> ps),
                              player_teams :=
                                 (case s_player_teams cached of None \<Rightarrow> Map.empty | Some t \<Rightarrow> t),
                              player_deaths := s_player_deaths cached,
                              weapon_popularity := s_weapon_popularity cached\<rparr>))))"

subsection \<open>A fresh parse\<close>

definition str_truthy :: "string option \<Rightarrow> bool" where
  "str_truthy s = (case s of None \<Rightarrow> False | Some t \<Rightarrow> t \<noteq> [])"

text \<open>The columns \<^verbatim>\<open>ticks_df.get("player", ticks_df.get("name", ...))\<close> and its team counterpart select.\<close>

definition player_array :: "'c ticks_df \<Rightarrow> 'c tick \<Rightarrow> string option" where
  "player_array df r = (if player_column df then t_player r else t_name r)"

definition team_array :: "'c ticks_df \<Rightarrow> 'c tick \<Rightarrow> pyval" where
  "team_array df r = (if team_column df then t_team r else t_team_name r)"

text \<open>One turn of the loop over the ticks (lines 213 to 220).\<close>

definition footstep_step :: "'c ticks_df \<Rightarrow> ('c, 'df) demo \<Rightarrow> 'c tick \<Rightarrow> ('c, 'df) demo" where
  "footstep_step df self r =
     (case t_X r of
        None \<Rightarrow> self
      | Some xx \<Rightarrow>
          (case t_Y r of
             None \<Rightarrow> self
           | Some yy \<Rightarrow>
               (let pname = player_array df r;
                    norm_team = normalize_team_name (team_array df r);
                    self1 = self\<lparr>footsteps := footsteps self @ [(t_index r, xx, yy, pname, norm_team)]\<rparr>
                in case pname of
                     None \<Rightarrow> self1
                   | Some p \<Rightarrow>
                       if p = [] then self1
                       else
                         (let self2 = self1\<lparr>players := finsert p (players self1)\<rparr>
                          in case norm_team of
                               None \<Rightarrow> self2
                             | Some t \<Rightarrow>
                                 if t \<in> set [''CT'', ''T'']
                                 then self2\<lparr>player_teams := (player_teams self2)(p \<mapsto> t)\<rparr>
                                 else self2))))"

text \<open>One turn of the loop over the round-end rows (lines 229 to 237).\<close>

definition round_step :: "round_entry list \<Rightarrow> round_row \<Rightarrow> round_entry list" where
  "round_step acc row =
     (case normalize_team_name (r_winner row) of
        None \<Rightarrow> acc
      | Some winner_norm \<Rightarrow>
          (case r_total_rounds_played row of
             None \<Rightarrow> acc
           | Some round_num \<Rightarrow>
               if winner_norm \<in> set [''CT'', ''T''] then acc @ [(winner_norm, round_num)] else acc))"

text \<open>One turn of the loop over the roster rows (lines 243 to 250).\<close>

definition roster_step :: "('c, 'df) demo \<Rightarrow> info_row \<Rightarrow> ('c, 'df) demo" where
  "roster_step self row =
     (case i_name row of
        None \<Rightarrow> self
      | Some name \<Rightarrow>
          (case i_team_number row of
             None \<Rightarrow> self
           | Some team_num \<Rightarrow>
               if name = [] \<or> team_num = 0 then self
               else if team_num = 3
                 then self\<lparr>player_teams := (player_teams self)(name \<mapsto> ''CT''),
                          players := finsert name (players self)\<rparr>
               else if team_num = 2
                 then self\<lparr>player_teams := (player_teams self)(name \<mapsto> ''T''),
                          players := finsert name (players self)\<rparr>
               else self))"

text \<open>Python's \<^verbatim>\<open>a or b\<close> on the two kinds of cell.\<close>

definition or_str :: "string option \<Rightarrow> string option \<Rightarrow> string option" where
  "or_str a b = (if str_truthy a then a else b)"

definition or_val :: "pyval \<Rightarrow> pyval \<Rightarrow> pyval" where
  "or_val a b = (if truthy a then a else b)"

text \<open>One turn of the fallback loop (lines 256 to 262), with \<^verbatim>\<open>row.get\<close> on the four columns.\<close>

definition fallback_step :: "'c ticks_df \<Rightarrow> ('c, 'df) demo \<Rightarrow> 'c tick \<Rightarrow> ('c, 'df) demo" where
  "fallback_step df self r =
     (let pname = or_str (if player_column df then t_player r else None) (t_name r);
          tname = or_val (if team_column df then t_team r else PNone) (t_team_name r)
      in case pname of
           None \<Rightarrow> self
         | Some p \<Rightarrow>
             (case normalize_team_name tname of
                None \<Rightarrow> self
              | Some t \<Rightarrow>
                  if p \<noteq> [] \<and> t \<in> set [''CT'', ''T'']
                  then self\<lparr>player_teams := (player_teams self)(p \<mapsto> t),
                           players := finsert p (players self)\<rparr>
                  else self))"

text \<open>
  Lines 166 to 262 of \<^verbatim>\<open>_parse\<close>. An unreadable header is replaced by the empty
  dictionary; an exception of \<^verbatim>\<open>parse_ticks\<close> or \<^verbatim>\<open>parse_player_info\<close> is swallowed;
  any other exception of the decoder leaves \<^verbatim>\<open>_parse\<close>.
\<close>

definition fresh_parse :: "('c, 'df) decoder \<Rightarrow> ('c, 'df) demo \<Rightarrow> py_error + ('c, 'df) demo" where
  "fresh_parse parser self =
     (case open_error parser of
        Some msg \<Rightarrow> Inl (Raised msg)
      | None \<Rightarrow>
          (let self1 = self\<lparr>header := (case parse_header parser of Inl e \<Rightarrow> Map.empty | Inr h \<Rightarrow> h)\<rparr>
           in case death_tables parser of
                Inl msg \<Rightarrow> Inl (Raised msg)
              | Inr (weapon_counts, deaths_df) \<Rightarrow>
                  (let self2 = self1\<lparr>weapon_popularity := Some weapon_counts,
                                     player_deaths := Some deaths_df\<rparr>;
                       ticks_df = (case parse_ticks parser of Inl e \<Rightarrow> None | Inr t \<Rightarrow> t);
                       self3 = (case ticks_df of
                                  None \<Rightarrow> self2\<lparr>footsteps := []\<rparr>
                                | Some df \<Rightarrow>
                                    foldl (footstep_step df) (self2\<lparr>footsteps := []\<rparr>) (tick_rows df))
                   in case round_end parser of
                        Inl msg \<Rightarrow> Inl (Raised msg)
                      | Inr round_end_df \<Rightarrow>
                          (let self4 = self3\<lparr>rounds :=
                                 (case round_end_df of
                                    None \<Rightarrow> []
                                  | Some rows \<Rightarrow> foldl round_step [] rows)\<rparr>;
                               self5 = (case parse_player_info parser of
                                          Inl e \<Rightarrow> self4
                                        | Inr None \<Rightarrow> self4
                                        | Inr (Some rows) \<Rightarrow> foldl roster_step self4 rows);
                               self6 = (case ticks_df of
                                          None \<Rightarrow> self5
                                        | Some df \<Rightarrow>
                                            if player_teams self5 = Map.empty
                                            then foldl (fallback_step df) self5 (tick_rows df)
                                            else self5)
                           in Inr self6))))"

subsection \<open>Storing and the whole of \<^verbatim>\<open>_parse\<close>\<close>

text \<open>The dictionary \<^verbatim>\<open>stored_data\<close>; \<^verbatim>\<open>list(self.players)\<close> lists the set in some order, here sorted.\<close>

definition stored_data :: "('c, 'df) demo \<Rightarrow> ('c, 'df) stored" where
  "stored_data self =
     \<lparr>s_header = Some (header self),
      s_footsteps = Some (footsteps self),
      s_rounds = Some (rounds self),
      s_players = Some (sorted_list_of_fset (players self)),
      s_player_teams = Some (player_teams self),
      s_player_deaths = player_deaths self,
      s_weapon_popularity = weapon_popularity self\<rparr>"

text \<open>Creating or replacing the file of a path.\<close>

definition put_file :: "'a cfile \<Rightarrow> 'a cfile list \<Rightarrow> 'a cfile list" where
  "put_file f dir =
     (if isfile dir (path f) then map (\<lambda>g. if path g = path f then f else g) dir
      else dir @ [f])"

text \<open>Lines 280 to 284: the write, whose exceptions are swallowed.\<close>

definition write_cache_file ::
  "string \<Rightarrow> ('c, 'df) stored \<Rightarrow> write_result \<Rightarrow> ('c, 'df) artifact cfile list
     \<Rightarrow> ('c, 'df) artifact cfile list" where
  "write_cache_file cache_file data wr dir =
     (case wr of
        Written sz mt rm \<Rightarrow>
          put_file \<lparr>path = cache_file, fsize = sz, mtime = mt, removable = rm, content = Pickled data\<rparr> dir
      | Truncated sz mt rm \<Rightarrow>
          put_file \<lparr>path = cache_file, fsize = sz, mtime = mt, removable = rm, content = Corrupt\<rparr> dir
      | Refused \<Rightarrow> dir)"

text \<open>
  Lines 264 to 284: the entry of the in-memory cache, then the budget of the folder,
  then the write.
\<close>

definition store_to_cache ::
  "write_result \<Rightarrow> ('c, 'df) demo \<Rightarrow> ('c, 'df) world \<Rightarrow> ('c, 'df) world" where
  "store_to_cache wr self w =
     (let data = stored_data self;
          w1 = w\<lparr>mem := (mem w)(demo_file self \<mapsto> data)\<rparr>;
          w2 = w1\<lparr>disk := check_cache_folder_size default_max_size_bytes (disk w1)\<rparr>
      in w2\<lparr>disk := write_cache_file (external_cache_path (demo_file self)) data wr (disk w2)\<rparr>)"

text \<open>
  \<^verbatim>\<open>_parse\<close>: the file of the folder first, the in-memory cache second, the decoder
  last. The result is the parser object and the caches it leaves, or the exception that
  leaves \<^verbatim>\<open>_parse\<close>.
\<close>

definition parse ::
  "('c, 'df) decoder \<Rightarrow> write_result \<Rightarrow> ('c, 'df) world \<Rightarrow> ('c, 'df) demo
     \<Rightarrow> py_error + ('c, 'df) demo \<times> ('c, 'df) world" where
  "parse parser wr w self =
     (let cache_file = external_cache_path (demo_file self);
          (hit, self1, w1) = (if isfile (disk w) cache_file then load_from_cache w self cache_file
                              else (False, self, w))
      in if hit then Inr (self1, w1)
         else
           (case load_from_memory_cache w1 self1 of
              Inl e \<Rightarrow> Inl e
            | Inr (found, self2) \<Rightarrow>
                if found then Inr (self2, w1)
                else
                  (case fresh_parse parser self2 of
                     Inl e \<Rightarrow> Inl e
                   | Inr self3 \<Rightarrow> Inr (self3, store_to_cache wr self3 w1))))"

text \<open>\<^verbatim>\<open>DemoFileParser(path)\<close>: the attributes of \<^verbatim>\<open>__init__\<close>, then \<^verbatim>\<open>_parse\<close>; the path is taken as absolute.\<close>

definition init_demo :: "string \<Rightarrow> ('c, 'df) demo" where
  "init_demo p =
     \<lparr>demo_file = p, header = Map.empty, footsteps = [], rounds = [], players = {||},
      player_teams = Map.empty, player_deaths = None, weapon_popularity = None\<rparr>"

definition DemoFileParser ::
  "('c, 'df) decoder \<Rightarrow> write_result \<Rightarrow> ('c, 'df) world \<Rightarrow> string
     \<Rightarrow> py_error + ('c, 'df) demo \<times> ('c, 'df) world" where
  "DemoFileParser parser wr w p = parse parser wr w (init_demo p)"

section \<open>parser.py and actions.py: opening a demo\<close>

text \<open>\<^verbatim>\<open>str(e)\<close> of the exception that left the parser.\<close>

fun err_str :: "py_error \<Rightarrow> string" where
  "err_str IndexError = ''list index out of range''"
| "err_str (KeyError k) = [CHR 0x27] @ k @ [CHR 0x27]"
| "err_str (Raised msg) = msg"

text \<open>
  One turn of \<^verbatim>\<open>DemHeaderParseThread.run\<close>: the header and the error text that
  \<^verbatim>\<open>file_parsed\<close> emits for a path, and the caches afterwards.
\<close>

definition run_one ::
  "('c, 'df) decoder \<Rightarrow> write_result \<Rightarrow> ('c, 'df) world \<Rightarrow> string
     \<Rightarrow> (header \<times> string) \<times> ('c, 'df) world" where
  "run_one parser wr w p =
     (case DemoFileParser parser wr w p of
        Inr (dp, w') \<Rightarrow> ((header dp, []), w')
      | Inl e \<Rightarrow> ((Map.empty, err_str e), w))"

text \<open>An entry of the list \<^verbatim>\<open>loaded\<close>, and what \<^verbatim>\<open>on_parsed\<close> did with a file.\<close>

record ('c, 'df) loaded_demo =
  l_file :: string
  l_map :: string
  l_addons :: string
  l_enabled :: bool
  l_parser :: "('c, 'df) demo"

datatype outcome =
  Canceled
| ParseErrorWarning string
| InvalidDemWarning
| ParserErrorWarning string
| Registered

text \<open>
  \<^verbatim>\<open>on_parsed\<close> of \<^verbatim>\<open>open_dem\<close>, on the caches and the list \<^verbatim>\<open>loaded\<close>; the calls into
  the window (loading the map, the tree item) are left out.
\<close>

definition on_parsed ::
  "('c, 'df) decoder \<Rightarrow> write_result \<Rightarrow> bool \<Rightarrow> ('c, 'df) world \<Rightarrow> ('c, 'df) loaded_demo list
     \<Rightarrow> string \<Rightarrow> header \<Rightarrow> string
     \<Rightarrow> outcome \<times> ('c, 'df) loaded_demo list \<times> ('c, 'df) world" where
  "on_parsed parser wr was_canceled w loaded f hdr err =
     (if was_canceled then (Canceled, loaded, w)
      else if err \<noteq> [] then (ParseErrorWarning err, loaded, w)
      else
        (let mname = (case hdr ''map_name'' of None \<Rightarrow> [] | Some m \<Rightarrow> m);
             addon = (case hdr ''addons'' of None \<Rightarrow> [] | Some a \<Rightarrow> a)
         in if mname = [] then (InvalidDemWarning, loaded, w)
            else
              (case DemoFileParser parser wr w f of
                 Inl e \<Rightarrow> (ParserErrorWarning (err_str e), loaded, w)
               | Inr (dp, w') \<Rightarrow>
                   (Registered,
                    loaded @ [\<lparr>l_file = f, l_map = mname, l_addons = addon, l_enabled = True,
                               l_parser = dp\<rparr>],
                    w'))))"

text \<open>A file from the thread to the list: the signal carries what \<^const>\<open>run_one\<close> emitted.\<close>

definition open_one ::
  "('c, 'df) decoder \<Rightarrow> write_result \<Rightarrow> write_result \<Rightarrow> bool \<Rightarrow> ('c, 'df) world
     \<Rightarrow> ('c, 'df) loaded_demo list \<Rightarrow> string
     \<Rightarrow> outcome \<times> ('c, 'df) loaded_demo list \<times> ('c, 'df) world" where
  "open_one parser wr1 wr2 was_canceled w loaded f =
     (case run_one parser wr1 w f of
        ((hdr, err), w1) \<Rightarrow> on_parsed parser wr2 was_canceled w1 loaded f hdr err)"

section \<open>The entries the lookups read\<close>

text \<open>
  The dictionary \<^verbatim>\<open>_load_from_cache\<close> can read for a parser object: the file of its
  cache path exists, unpickles, and has the keys \<^verbatim>\<open>"header"\<close> and \<^verbatim>\<open>"footsteps"\<close>.
\<close>

definition disk_entry :: "('c, 'df) world \<Rightarrow> ('c, 'df) demo \<Rightarrow> ('c, 'df) stored option" where
  "disk_entry w self =
     (case find (\<lambda>f. path f = external_cache_path (demo_file self)) (disk w) of
        None \<Rightarrow> None
      | Some f \<Rightarrow>
          (case content f of
             Corrupt \<Rightarrow> None
           | Pickled data \<Rightarrow>
               if s_header data = None \<or> s_footsteps data = None then None else Some data))"

text \<open>The attributes of a parser object once a dictionary has been read into it.\<close>

definition read_entry :: "('c, 'df) demo \<Rightarrow> ('c, 'df) stored \<Rightarrow> ('c, 'df) demo" where
  "read_entry self data =
     self\<lparr>header := (case s_header data of None \<Rightarrow> header self | Some h \<Rightarrow> h),
          footsteps := (case s_footsteps data of None \<Rightarrow> footsteps self | Some fs \<Rightarrow> fs),
          rounds := (case s_rounds data of None \<Rightarrow> [] | Some r \<Rightarrow> r),
          players := fset_of_list (case s_players data of None \<Rightarrow> [] | Some ps \<Rightarrow> ps),
          player_teams := (case s_player_teams data of None \<Rightarrow> Map.empty | Some t \<Rightarrow> t),
          player_deaths := s_player_deaths data,
          weapon_popularity := s_weapon_popularity data\<rparr>"

text \<open>An entry of the in-memory cache that \<^verbatim>\<open>_load_from_memory_cache\<close> reads without a \<^verbatim>\<open>KeyError\<close>.\<close>

definition readable :: "('c, 'df) stored \<Rightarrow> bool" where
  "readable data \<longleftrightarrow> s_header data \<noteq> None \<and> s_footsteps data \<noteq> None"

section \<open>Concrete inputs\<close>

text \<open>Decoders, dictionaries and caches used as concrete inputs below.\<close>

definition empty_world :: "(rat, unit) world" where
  "empty_world = \<lparr>mem = Map.empty, disk = []\<rparr>"

definition unreadable_header_decoder :: "(rat, unit) decoder" where
  "unreadable_header_decoder =
     \<lparr>open_error = None, parse_header = Inl ''header'', death_tables = Inr ((), ()),
      parse_ticks = Inr None, round_end = Inr None, parse_player_info = Inr None\<rparr>"

definition mirage_decoder :: "(rat, unit) decoder" where
  "mirage_decoder =
     \<lparr>open_error = None, parse_header = Inr [''map_name'' \<mapsto> ''de_mirage''],
      death_tables = Inr ((), ()), parse_ticks = Inr None, round_end = Inr None,
      parse_player_info = Inr None\<rparr>"

definition dust_data :: "(rat, unit) stored" where
  "dust_data =
     \<lparr>s_header = Some [''map_name'' \<mapsto> ''de_dust2''], s_footsteps = Some [], s_rounds = Some [],
      s_players = Some [], s_player_teams = Some Map.empty, s_player_deaths = Some (),
      s_weapon_popularity = Some ()\<rparr>"

definition inferno_data :: "(rat, unit) stored" where
  "inferno_data =
     \<lparr>s_header = Some [''map_name'' \<mapsto> ''de_inferno''], s_footsteps = Some [], s_rounds = Some [],
      s_players = Some [], s_player_teams = Some Map.empty, s_player_deaths = Some (),
      s_weapon_popularity = Some ()\<rparr>"

text \<open>Both tiers hold an entry for \<^verbatim>\<open>/demos/a.dem\<close>, and the entries differ.\<close>

definition both_tiers_world :: "(rat, unit) world" where
  "both_tiers_world =
     \<lparr>mem = [''/demos/a.dem'' \<mapsto> dust_data],
      disk = [\<lparr>path = ''demcache_a.dem.pkl'', fsize = 100, mtime = 1, removable = True,
               content = Pickled inferno_data\<rparr>]\<rparr>"

text \<open>The file of \<^verbatim>\<open>/demos/a.dem\<close> is corrupt and the in-memory cache holds an entry.\<close>

definition corrupt_disk_world :: "(rat, unit) world" where
  "corrupt_disk_world =
     \<lparr>mem = [''/demos/a.dem'' \<mapsto> dust_data],
      disk = [\<lparr>path = ''demcache_a.dem.pkl'', fsize = 100, mtime = 1, removable = True,
               content = Corrupt\<rparr>]\<rparr>"


text \<open>The parser object a fresh parse of \<^verbatim>\<open>/demos/a.dem\<close> gives with \<^const>\<open>mirage_decoder\<close>.\<close>

definition mirage_demo :: "(rat, unit) demo" where
  "mirage_demo =
     \<lparr>demo_file = ''/demos/a.dem'', header = [''map_name'' \<mapsto> ''de_mirage''], footsteps = [],
      rounds = [], players = {||}, player_teams = Map.empty, player_deaths = Some (),
      weapon_popularity = Some ()\<rparr>"

section \<open>Properties\<close>

subsection \<open>Team normalisation\<close>

lemma upper_char_digit: "c \<in> set ''0123456789'' \<Longrightarrow> upper_char c = c"
  by (simp, elim disjE; simp add: upper_char_def)

lemma upper_char_capital: "c \<in> set ''ABCDEFGHIJKLMNOPQRSTUVWXYZ'' \<Longrightarrow> upper_char c = c"
  by (simp, elim disjE; simp add: upper_char_def)

lemma upper_char_range: "upper_char c = c \<or> upper_char c \<in> set ''ABCDEFGHIJKLMNOPQRSTUVWXYZ''"
proof (cases "map_of (zip ''abcdefghijklmnopqrstuvwxyz'' ''ABCDEFGHIJKLMNOPQRSTUVWXYZ'') c")
  case None
  then show ?thesis by (simp add: upper_char_def)
next
  case (Some u)
  then have "(c, u) \<in> set (zip ''abcdefghijklmnopqrstuvwxyz'' ''ABCDEFGHIJKLMNOPQRSTUVWXYZ'')"
    by (rule map_of_SomeD)
  then have "u \<in> set ''ABCDEFGHIJKLMNOPQRSTUVWXYZ''"
    by (rule set_zip_rightD)
  moreover have "upper_char c = u" using Some by (simp only: upper_char_def option.case)
  ultimately show ?thesis by blast
qed

lemma upper_char_fix: "upper_char (upper_char c) = upper_char c"
  using upper_char_range[of c] upper_char_capital[of "upper_char c"] by auto


lemma upper_idem: "upper (upper s) = upper s"
  by (simp add: upper_def upper_char_fix)

lemma digit_char_in: "d < 10 \<Longrightarrow> digit_char d \<in> set ''0123456789''"
  unfolding digit_char_def by (rule nth_mem) simp

lemma digits_set: "set (digits n) \<subseteq> set ''0123456789''"
proof (induction n rule: digits.induct)
  case (1 n)
  show ?case
  proof (cases "n < 10")
    case True
    then show ?thesis using digit_char_in[of n] by (subst digits.simps) simp
  next
    case False
    have "n mod 10 < 10" by simp
    then have "digit_char (n mod 10) \<in> set ''0123456789''" by (rule digit_char_in)
    with False 1 show ?thesis by (subst digits.simps) simp
  qed
qed

lemma upper_digits: "upper (digits n) = digits n"
proof -
  have "\<And>c. c \<in> set (digits n) \<Longrightarrow> upper_char c = c"
    using digits_set[of n] upper_char_digit by blast
  then show ?thesis unfolding upper_def by (rule map_idI)
qed

lemma digits_len: "10 \<le> n \<Longrightarrow> 2 \<le> length (digits n)"
  by (subst digits.simps, cases "n div 10 < 10"; subst digits.simps; simp)


lemma digits_single: "digits n = [c] \<longleftrightarrow> n < 10 \<and> c = digit_char n"
proof (cases "n < 10")
  case True then show ?thesis by (subst digits.simps) auto
next
  case False
  then have "2 \<le> length (digits n)" by (simp add: digits_len)
  with False show ?thesis by auto
qed

lemma small_cases: "n < 10 \<Longrightarrow> n \<in> {0, 1, 2, 3, 4, 5, 6, 7, 8, 9::nat}"
  by auto

lemma digits_three: "digits n = ''3'' \<longleftrightarrow> n = 3"
proof
  assume "digits n = ''3''"
  then have "n < 10" and "digit_char n = CHR ''3''" by (simp_all add: digits_single)
  then show "n = 3" using small_cases[of n] by (auto simp: digit_char_def)
next
  assume "n = 3" then show "digits n = ''3''" by (simp add: digits_single digit_char_def)
qed

lemma digits_two: "digits n = ''2'' \<longleftrightarrow> n = 2"
proof
  assume "digits n = ''2''"
  then have "n < 10" and "digit_char n = CHR ''2''" by (simp_all add: digits_single)
  then show "n = 2" using small_cases[of n] by (auto simp: digit_char_def)
next
  assume "n = 2" then show "digits n = ''2''" by (simp add: digits_single digit_char_def)
qed

lemma digits_no_letter: "CHR ''T'' \<notin> set (digits n)"
  using digits_set[of n] by auto

lemma digits_not_words:
  "digits n \<noteq> ''CT''" "digits n \<noteq> ''COUNTERTERRORIST''" "digits n \<noteq> ''COUNTER-TERRORIST''"
  "digits n \<noteq> ''T''" "digits n \<noteq> ''TERRORIST''" "digits n \<noteq> ''TERRORISTS''"
  using digits_no_letter[of n] by auto

lemma normalize_int:
  "normalize_team_name (PInt n) = (if n = 3 then Some ''CT'' else if n = 2 then Some ''T'' else None)"
proof (cases "n < 0")
  case True
  then show ?thesis
    by (simp add: normalize_team_name_def str_int_def upper_def upper_char_def)
next
  case False
  then have s: "upper (py_str (PInt n)) = digits (nat n)"
    by (simp add: str_int_def upper_digits)
  have "nat n = 3 \<longleftrightarrow> n = 3" "nat n = 2 \<longleftrightarrow> n = 2" using False by auto
  then show ?thesis
    unfolding normalize_team_name_def Let_def s
    by (auto simp: digits_three digits_two digits_not_words)
qed

lemma normalize_str:
  "normalize_team_name (PStr s) =
    (if upper s \<in> {''CT'', ''COUNTERTERRORIST'', ''COUNTER-TERRORIST'', ''3''} then Some ''CT''
     else if upper s \<in> {''T'', ''TERRORIST'', ''TERRORISTS'', ''2''} then Some ''T'' else None)"
  by (cases s) (simp_all add: normalize_team_name_def upper_def)

lemma normalize_other:
  "normalize_team_name PNone = None" "normalize_team_name (PBool b) = None"
  by (simp_all add: normalize_team_name_def upper_def upper_char_def)

lemma normalize_cases:
  "normalize_team_name v = (if v \<in> ct_codes then Some ''CT'' else if v \<in> t_codes then Some ''T'' else None)"
  by (cases v) (auto simp: normalize_int normalize_str normalize_other ct_codes_def t_codes_def)

lemma normalize_fixed:
  "normalize_team_name (PStr ''CT'') = Some ''CT''" "normalize_team_name (PStr ''T'') = Some ''T''"
  by (simp_all add: normalize_team_name_def upper_def upper_char_def)

text \<open>
  C3. Team normalisation returns a value for every input and is idempotent: \<^verbatim>\<open>'CT'\<close> and
  \<^verbatim>\<open>'T'\<close> are returned unchanged, normalising a result again gives the same result, the
  result is always \<^verbatim>\<open>None\<close>, \<^verbatim>\<open>'CT'\<close> or \<^verbatim>\<open>'T'\<close>, and every input outside the
  recognised codes (3 and the CT spellings, 2 and the T spellings) gives \<^verbatim>\<open>None\<close>.
\<close>

theorem normalize_team_name_total_idempotent:
  "normalize_team_name (PStr ''CT'') = Some ''CT''
   \<and> normalize_team_name (PStr ''T'') = Some ''T''
   \<and> normalize_team_name (team_value (normalize_team_name v)) = normalize_team_name v
   \<and> normalize_team_name v \<in> {None, Some ''CT'', Some ''T''}
   \<and> (v \<notin> ct_codes \<union> t_codes \<longrightarrow> normalize_team_name v = None)
   \<and> (normalize_team_name v = Some ''CT'' \<longleftrightarrow> v \<in> ct_codes)
   \<and> (normalize_team_name v = Some ''T'' \<longleftrightarrow> v \<in> t_codes \<and> v \<notin> ct_codes)"
proof -
  have idem: "normalize_team_name (team_value (normalize_team_name v)) = normalize_team_name v"
    using normalize_fixed by (simp add: normalize_cases[of v] normalize_other)
  show ?thesis
    using idem normalize_fixed by (simp add: normalize_cases[of v])
qed

theorem normalize_team_name_total_idempotent_witness:
  "PStr ''spectator'' \<notin> ct_codes \<union> t_codes \<and> normalize_team_name (PStr ''spectator'') = None
   \<and> PInt 3 \<in> ct_codes \<and> normalize_team_name (PInt 3) = Some ''CT''
   \<and> PStr ''terrorist'' \<in> t_codes \<and> normalize_team_name (PStr ''terrorist'') = Some ''T''"
proof -
  have u: "upper ''spectator'' = ''SPECTATOR''" "upper ''terrorist'' = ''TERRORIST''"
    by (simp_all add: upper_def upper_char_def)
  have a: "PStr ''spectator'' \<notin> ct_codes \<union> t_codes"
    by (simp add: ct_codes_def t_codes_def u)
  have b: "PInt 3 \<in> ct_codes"
    by (simp add: ct_codes_def)
  have c: "PStr ''terrorist'' \<in> t_codes" "PStr ''terrorist'' \<notin> ct_codes"
    by (simp_all add: ct_codes_def t_codes_def u)
  from a have "normalize_team_name (PStr ''spectator'') = None"
    using normalize_team_name_total_idempotent [of "PStr ''spectator''"] by blast
  moreover from b have "normalize_team_name (PInt 3) = Some ''CT''"
    using normalize_team_name_total_idempotent [of "PInt 3"] by blast
  moreover from c have "normalize_team_name (PStr ''terrorist'') = Some ''T''"
    using normalize_team_name_total_idempotent [of "PStr ''terrorist''"] by blast
  ultimately show ?thesis using a b c by blast
qed


subsection \<open>Downsampling\<close>












text \<open>
  C9. When the stride exceeds the number of footsteps and there are at least two of
  them, \<open>length xs div n = 0\<close> indices are computed and the result is the empty
  sequence, although the input is not empty.
\<close>

theorem apply_downsampling_stride_exceeds:
  assumes "1 < length xs" and "int (length xs) < n"
  shows "apply_downsampling n xs = Inr []"
proof -
  have "int (length xs) div n = 0" using assms by (simp add: div_pos_pos_trivial)
  then show ?thesis
    using assms by (simp add: apply_downsampling_def linspace_int_def)
qed

theorem apply_downsampling_stride_exceeds_witness:
  "1 < length [10, 20::nat] \<and> int (length [10, 20::nat]) < 3
   \<and> apply_downsampling 3 [10, 20::nat] = Inr []"
  using apply_downsampling_stride_exceeds [of "[10, 20::nat]" 3] by simp


subsection \<open>The disk budget\<close>

lemma dir_total_simps [simp]:
  "dir_total [] = 0" "dir_total (f # fs) = int (fsize f) + dir_total fs"
  "dir_total (xs @ ys) = dir_total xs + dir_total ys"
  by (simp_all add: dir_total_def)

lemma dir_total_split:
  "dir_total (filter P xs) + dir_total (filter (\<lambda>x. \<not> P x) xs) = dir_total xs"
  by (induction xs) auto

lemma dir_total_mset: "mset xs = mset ys \<Longrightarrow> dir_total xs = dir_total ys"
proof -
  assume "mset xs = mset ys"
  then have "mset (map (\<lambda>f. int (fsize f)) xs) = mset (map (\<lambda>f. int (fsize f)) ys)" by simp
  then show ?thesis unfolding dir_total_def by (metis sum_mset_sum_list)
qed

lemma evict_prefix:
  "\<exists>k \<le> length S.
     evict B S (T, D)
       = (T - dir_total (filter removable (take k S)),
          filter (\<lambda>g. path g \<notin> path ` set (filter removable (take k S))) D)
     \<and> (\<forall>j<k. B < T - dir_total (filter removable (take j S)))
     \<and> (k < length S \<longrightarrow> T - dir_total (filter removable (take k S)) \<le> B)"
proof (induction S arbitrary: T D)
  case Nil
  show ?case by simp
next
  case (Cons f fs)
  show ?case
  proof (cases "T \<le> B")
    case True
    then show ?thesis by (intro exI[of _ 0]) simp
  next
    case False
    show ?thesis
    proof (cases "removable f")
      case True
      from Cons.IH[of "T - int (fsize f)" "os_remove (path f) D"]
      obtain k where k: "k \<le> length fs"
        "evict B fs (T - int (fsize f), os_remove (path f) D)
           = (T - int (fsize f) - dir_total (filter removable (take k fs)),
              filter (\<lambda>g. path g \<notin> path ` set (filter removable (take k fs))) (os_remove (path f) D))"
        "\<forall>j<k. B < T - int (fsize f) - dir_total (filter removable (take j fs))"
        "k < length fs \<longrightarrow> T - int (fsize f) - dir_total (filter removable (take k fs)) \<le> B"
        by blast
      have "\<forall>j<Suc k. B < T - dir_total (filter removable (take j (f # fs)))"
      proof (intro allI impI)
        fix j assume "j < Suc k"
        then show "B < T - dir_total (filter removable (take j (f # fs)))"
          using k(3) False True by (cases j) (auto simp: algebra_simps)
      qed
      moreover have "filter (\<lambda>g. path g \<notin> path ` set (filter removable (take k fs))) (os_remove (path f) D)
            = filter (\<lambda>g. path g \<notin> path ` set (filter removable (take (Suc k) (f # fs)))) D"
        using True by (auto simp: os_remove_def intro: filter_cong)
      ultimately show ?thesis
        using k False True by (intro exI[of _ "Suc k"]) (simp add: algebra_simps)
    next
      case nr: False
      from Cons.IH[of T D]
      obtain k where k: "k \<le> length fs"
        "evict B fs (T, D)
           = (T - dir_total (filter removable (take k fs)),
              filter (\<lambda>g. path g \<notin> path ` set (filter removable (take k fs))) D)"
        "\<forall>j<k. B < T - dir_total (filter removable (take j fs))"
        "k < length fs \<longrightarrow> T - dir_total (filter removable (take k fs)) \<le> B"
        by blast
      have "\<forall>j<Suc k. B < T - dir_total (filter removable (take j (f # fs)))"
      proof (intro allI impI)
        fix j assume "j < Suc k"
        then show "B < T - dir_total (filter removable (take j (f # fs)))"
          using k(3) False nr by (cases j) auto
      qed
      then show ?thesis
        using k False nr by (intro exI[of _ "Suc k"]) simp
    qed
  qed
qed

lemma check_is_evict:
  "check_cache_folder_size B dir = snd (evict B (sort_key mtime dir) (dir_total dir, dir))"
  by (cases "sort_key mtime dir") (auto simp: check_cache_folder_size_def Let_def)


lemma check_cache_folder_size_shape:
  assumes dp: "distinct (map path dir)"
  shows "\<exists>k \<le> length dir.
           removed_files B dir = filter removable (take k (sort_key mtime dir))
         \<and> check_cache_folder_size B dir = filter (\<lambda>f. f \<notin> set (removed_files B dir)) dir
         \<and> dir_total (check_cache_folder_size B dir) = dir_total dir - dir_total (removed_files B dir)
         \<and> (\<forall>j<k. B < dir_total dir - dir_total (filter removable (take j (sort_key mtime dir))))
         \<and> (k < length dir \<longrightarrow> dir_total (check_cache_folder_size B dir) \<le> B)"
proof -
  define S where "S = sort_key mtime dir"
  have dd: "distinct dir" using dp by (simp add: distinct_map)
  have inj: "inj_on path (set dir)" using dp by (simp add: distinct_map)
  have setS: "set S = set dir" and dS: "distinct S" and lenS: "length S = length dir"
    using dd by (simp_all add: S_def)
  from evict_prefix[of S B "dir_total dir" dir]
  obtain k where k: "k \<le> length S"
    "evict B S (dir_total dir, dir)
       = (dir_total dir - dir_total (filter removable (take k S)),
          filter (\<lambda>g. path g \<notin> path ` set (filter removable (take k S))) dir)"
    "\<forall>j<k. B < dir_total dir - dir_total (filter removable (take j S))"
    "k < length S \<longrightarrow> dir_total dir - dir_total (filter removable (take k S)) \<le> B"
    by blast
  define R where "R = filter removable (take k S)"
  have subR: "set R \<subseteq> set dir"
    using setS by (auto simp: R_def dest: in_set_takeD)
  have dR: "distinct R" using dS by (simp add: R_def)
  have C: "check_cache_folder_size B dir = filter (\<lambda>g. g \<notin> set R) dir"
  proof -
    have "check_cache_folder_size B dir = filter (\<lambda>g. path g \<notin> path ` set R) dir"
      using k(2) by (simp add: check_is_evict S_def R_def)
    also have "\<dots> = filter (\<lambda>g. g \<notin> set R) dir"
    proof (rule filter_cong[OF refl])
      fix g assume g: "g \<in> set dir"
      show "(path g \<notin> path ` set R) = (g \<notin> set R)"
        using inj g subR by (auto simp: inj_on_def)
    qed
    finally show ?thesis .
  qed
  have rem: "removed_files B dir = R"
  proof -
    have "removed_files B dir = filter (\<lambda>f. f \<in> set R) S"
      unfolding removed_files_def C S_def[symmetric]
      by (rule filter_cong[OF refl]) (auto simp: setS)
    also have "\<dots> = filter (\<lambda>f. f \<in> set R) (take k S) @ filter (\<lambda>f. f \<in> set R) (drop k S)"
      by (metis append_take_drop_id filter_append)
    also have "filter (\<lambda>f. f \<in> set R) (take k S) = R"
      unfolding R_def by (rule filter_cong[OF refl]) auto
    also have "filter (\<lambda>f. f \<in> set R) (drop k S) = []"
    proof -
      have "set (take k S) \<inter> set (drop k S) = {}"
        using dS by (rule set_take_disj_set_drop_if_distinct) simp
      then have "\<forall>f \<in> set (drop k S). f \<notin> set R" by (auto simp: R_def)
      then show ?thesis by (simp add: filter_empty_conv)
    qed
    finally show ?thesis by simp
  qed
  have tot: "dir_total (check_cache_folder_size B dir) = dir_total dir - dir_total R"
  proof -
    have "set (filter (\<lambda>g. g \<in> set R) dir) = set R" using subR by auto
    moreover have "distinct (filter (\<lambda>g. g \<in> set R) dir)" using dd by simp
    ultimately have "mset (filter (\<lambda>g. g \<in> set R) dir) = mset R"
      using dR set_eq_iff_mset_eq_distinct[of "filter (\<lambda>g. g \<in> set R) dir" R] by blast
    then have "dir_total (filter (\<lambda>g. g \<in> set R) dir) = dir_total R"
      by (rule dir_total_mset)
    then show ?thesis
      using dir_total_split[of "\<lambda>g. g \<in> set R" dir] by (simp add: C)
  qed
  show ?thesis
  proof (intro exI[of _ k] conjI)
    show "k \<le> length dir" using k(1) lenS by simp
    show "removed_files B dir = filter removable (take k (sort_key mtime dir))"
      by (simp add: rem R_def S_def)
    show "check_cache_folder_size B dir = filter (\<lambda>f. f \<notin> set (removed_files B dir)) dir"
      by (simp add: C rem)
    show "dir_total (check_cache_folder_size B dir) = dir_total dir - dir_total (removed_files B dir)"
      by (simp add: tot rem)
    show "\<forall>j<k. B < dir_total dir - dir_total (filter removable (take j (sort_key mtime dir)))"
      using k(3) by (simp add: S_def)
    show "k < length dir \<longrightarrow> dir_total (check_cache_folder_size B dir) \<le> B"
      using k(4) lenS by (simp add: tot R_def)
  qed
qed

lemma check_cache_folder_size_reaches:
  assumes dp: "distinct (map path dir)"
    and un: "dir_total (filter (\<lambda>f. \<not> removable f) dir) \<le> B"
  shows "dir_total (check_cache_folder_size B dir) \<le> B"
proof -
  from check_cache_folder_size_shape[OF dp, of B]
  obtain k where k: "k \<le> length dir"
    "removed_files B dir = filter removable (take k (sort_key mtime dir))"
    "dir_total (check_cache_folder_size B dir) = dir_total dir - dir_total (removed_files B dir)"
    "k < length dir \<longrightarrow> dir_total (check_cache_folder_size B dir) \<le> B"
    by blast
  show ?thesis
  proof (cases "k < length dir")
    case True with k(4) show ?thesis by simp
  next
    case False
    with k(1) have "take k (sort_key mtime dir) = sort_key mtime dir" by simp
    then have "removed_files B dir = filter removable (sort_key mtime dir)" using k(2) by simp
    moreover have "mset (filter removable (sort_key mtime dir)) = mset (filter removable dir)"
      by simp
    ultimately have "dir_total (removed_files B dir) = dir_total (filter removable dir)"
      by (simp add: dir_total_mset)
    with dir_total_split[of removable dir] k(3) un show ?thesis by simp
  qed
qed


text \<open>
  C5 (as amended). For a folder with distinct paths and a limit \<open>B\<close>: the remaining
  total is at most \<open>B\<close> whenever the files that cannot be deleted fit in \<open>B\<close>; the
  deleted files are exactly the deletable files of a prefix of the files in ascending
  modification time, the shortest prefix whose deletable files bring the total within
  \<open>B\<close> (the whole folder when none does); when every deletion succeeds they are
  exactly that prefix.
\<close>

theorem check_cache_folder_size_budget:
  assumes "distinct (map path dir)"
  shows "(dir_total (filter (\<lambda>f. \<not> removable f) dir) \<le> B
            \<longrightarrow> dir_total (check_cache_folder_size B dir) \<le> B)
       \<and> (\<exists>k \<le> length dir.
             removed_files B dir = filter removable (take k (sort_key mtime dir))
           \<and> check_cache_folder_size B dir = filter (\<lambda>f. f \<notin> set (removed_files B dir)) dir
           \<and> dir_total (check_cache_folder_size B dir) = dir_total dir - dir_total (removed_files B dir)
           \<and> (\<forall>j<k. B < dir_total dir - dir_total (filter removable (take j (sort_key mtime dir))))
           \<and> (k < length dir \<longrightarrow> dir_total (check_cache_folder_size B dir) \<le> B))
       \<and> ((\<forall>f \<in> set dir. removable f)
            \<longrightarrow> (\<exists>k \<le> length dir. removed_files B dir = take k (sort_key mtime dir)))"
proof (intro conjI impI)
  assume "dir_total (filter (\<lambda>f. \<not> removable f) dir) \<le> B"
  with assms show "dir_total (check_cache_folder_size B dir) \<le> B"
    by (rule check_cache_folder_size_reaches)
next
  show "\<exists>k \<le> length dir.
             removed_files B dir = filter removable (take k (sort_key mtime dir))
           \<and> check_cache_folder_size B dir = filter (\<lambda>f. f \<notin> set (removed_files B dir)) dir
           \<and> dir_total (check_cache_folder_size B dir) = dir_total dir - dir_total (removed_files B dir)
           \<and> (\<forall>j<k. B < dir_total dir - dir_total (filter removable (take j (sort_key mtime dir))))
           \<and> (k < length dir \<longrightarrow> dir_total (check_cache_folder_size B dir) \<le> B)"
    using assms by (rule check_cache_folder_size_shape)
next
  assume all: "\<forall>f \<in> set dir. removable f"
  from check_cache_folder_size_shape[OF assms, of B]
  obtain k where k: "k \<le> length dir"
    "removed_files B dir = filter removable (take k (sort_key mtime dir))"
    by blast
  have "\<forall>f \<in> set (take k (sort_key mtime dir)). removable f"
    using all by (auto dest: in_set_takeD)
  then have "filter removable (take k (sort_key mtime dir)) = take k (sort_key mtime dir)"
    by (simp add: filter_id_conv)
  with k show "\<exists>k \<le> length dir. removed_files B dir = take k (sort_key mtime dir)"
    by auto
qed

lemma three_file_dir_eval:
  "sort_key mtime three_file_dir = [three_file_dir ! 1, three_file_dir ! 2, three_file_dir ! 0]"
  "check_cache_folder_size 6 three_file_dir = [three_file_dir ! 0]"
  "removed_files 6 three_file_dir = [three_file_dir ! 1, three_file_dir ! 2]"
  by (simp_all add: removed_files_def check_cache_folder_size_def dir_total_def os_remove_def
        three_file_dir_def)

theorem check_cache_folder_size_budget_witness:
  "distinct (map path three_file_dir)
   \<and> dir_total (filter (\<lambda>f. \<not> removable f) three_file_dir) \<le> 6
   \<and> list_all removable three_file_dir
   \<and> dir_total (check_cache_folder_size 6 three_file_dir) \<le> 6
   \<and> (\<exists>k \<le> length three_file_dir.
         removed_files 6 three_file_dir = take k (sort_key mtime three_file_dir))
   \<and> removed_files 6 three_file_dir = take 2 (sort_key mtime three_file_dir)"
proof -
  have d: "distinct (map path three_file_dir)"
    by (simp add: three_file_dir_def)
  have u: "dir_total (filter (\<lambda>f. \<not> removable f) three_file_dir) \<le> 6"
    by (simp add: three_file_dir_def)
  have a: "\<forall>f \<in> set three_file_dir. removable f"
    by (simp add: three_file_dir_def)
  have e: "removed_files 6 three_file_dir = take 2 (sort_key mtime three_file_dir)"
    by (simp add: three_file_dir_eval)
  have l: "list_all removable three_file_dir"
    by (simp add: three_file_dir_def)
  from check_cache_folder_size_budget [OF d, of 6] u a e d l show ?thesis
    by blast
qed

theorem check_cache_folder_size_prefix_counterexample:
  "sort_key mtime locked_oldest_dir = [locked_oldest_dir ! 0, locked_oldest_dir ! 1]
   \<and> removed_files 10 locked_oldest_dir = [locked_oldest_dir ! 1]
   \<and> check_cache_folder_size 10 locked_oldest_dir = [locked_oldest_dir ! 0]
   \<and> removed_files 10 locked_oldest_dir \<noteq> take 0 (sort_key mtime locked_oldest_dir)
   \<and> removed_files 10 locked_oldest_dir \<noteq> take 1 (sort_key mtime locked_oldest_dir)
   \<and> removed_files 10 locked_oldest_dir \<noteq> take 2 (sort_key mtime locked_oldest_dir)"
  by (simp add: removed_files_def check_cache_folder_size_def dir_total_def os_remove_def
        locked_oldest_dir_def)

subsection \<open>Rounding to float32\<close>

lemma rne_of_int [simp]: "rne (of_int n) = n"
  by (simp add: rne_def)

lemma powi_pos: "0 < (2::real) powi k"
  by simp

lemma powr_powi: "(2::real) powr real_of_int k = 2 powi k"
  by (rule powr_real_of_int') simp_all

lemma floor_log2_iff:
  assumes "0 < x"
  shows "\<lfloor>log 2 x\<rfloor> = e \<longleftrightarrow> 2 powi e \<le> x \<and> x < 2 powi (e + 1)"
proof -
  have "\<lfloor>log 2 x\<rfloor> = e \<longleftrightarrow> 2 powr real_of_int e \<le> x \<and> x < 2 powr real_of_int (e + 1)"
    using floor_log_eq_powr_iff[OF assms, of 2 e] by simp
  then show ?thesis by (simp only: powr_powi)
qed

lemma floor_log2_bounds:
  assumes "x \<noteq> 0"
  shows "2 powi \<lfloor>log 2 \<bar>x\<bar>\<rfloor> \<le> \<bar>x\<bar>" "\<bar>x\<bar> < 2 powi (\<lfloor>log 2 \<bar>x\<bar>\<rfloor> + 1)"
  using floor_log2_iff[of "\<bar>x\<bar>" "\<lfloor>log 2 \<bar>x\<bar>\<rfloor>"] assms by simp_all

lemma floor_log2_eq:
  assumes "2 powi e \<le> \<bar>x\<bar>" "\<bar>x\<bar> < 2 powi (e + 1)"
  shows "\<lfloor>log 2 \<bar>x\<bar>\<rfloor> = e"
proof -
  have "0 < \<bar>x\<bar>" using assms(1) powi_pos[of e] by linarith
  then show ?thesis using floor_log2_iff[of "\<bar>x\<bar>" e] assms by simp
qed

text \<open>A number of a known binade rounds on the grid of that binade.\<close>

lemma float32_binade:
  assumes "2 powi e \<le> \<bar>x\<bar>" "\<bar>x\<bar> < 2 powi (e + 1)" "- 126 \<le> e"
  shows "float32 x = of_int (rne (x / 2 powi (e - 23))) * 2 powi (e - 23)"
proof -
  have "0 < \<bar>x\<bar>" using assms(1) powi_pos[of e] by linarith
  then have "x \<noteq> 0" by simp
  moreover have "max (- 126) \<lfloor>log 2 \<bar>x\<bar>\<rfloor> = e"
    using floor_log2_eq[OF assms(1,2)] assms(3) by simp
  ultimately show ?thesis by (simp add: float32_def Let_def)
qed


lemma powi_less_imp: "(2::real) powi a < 2 powi b \<Longrightarrow> a < b"
proof (rule ccontr)
  assume l: "(2::real) powi a < 2 powi b" and "\<not> a < b"
  then have "b \<le> a" by simp
  then have "(2::real) powi b \<le> 2 powi a" by (rule power_int_increasing) simp
  with l show False by simp
qed

lemma powi_split: "(2::real) powi (a + b) = 2 powi a * 2 powi b"
  by (rule power_int_add) simp

text \<open>A number with a significand of 24 bits on the grid is a float32: rounding leaves it.\<close>

lemma float32_exact:
  assumes x: "x = of_int m * 2 powi k" and m: "\<bar>m\<bar> < 2 ^ 24" and k: "- 149 \<le> k"
  shows "float32 x = x"
proof (cases "x = 0")
  case True
  then show ?thesis by (simp add: float32_def)
next
  case False
  define e where "e = \<lfloor>log 2 \<bar>x\<bar>\<rfloor>"
  define E where "E = max (- 126) e"
  have "\<bar>x\<bar> = of_int \<bar>m\<bar> * 2 powi k"
    by (simp add: x abs_mult)
  also have "\<dots> < 2 ^ 24 * 2 powi k"
  proof -
    have "real_of_int \<bar>m\<bar> < real_of_int (2 ^ 24)" using m by (simp only: of_int_less_iff)
    then show ?thesis by (simp add: mult_strict_right_mono)
  qed
  also have "\<dots> = 2 powi (24 + k)"
    using powi_split[of 24 k] by simp
  finally have "\<bar>x\<bar> < 2 powi (24 + k)" .
  moreover have "2 powi e \<le> \<bar>x\<bar>"
    unfolding e_def using False by (rule floor_log2_bounds)
  ultimately have "(2::real) powi e < 2 powi (24 + k)" by linarith
  then have "e < 24 + k" by (rule powi_less_imp)
  with k have j: "0 \<le> k - (E - 23)" by (simp add: E_def)
  define n where "n = m * 2 ^ nat (k - (E - 23))"
  have "(2::real) powi k = 2 powi (k - (E - 23)) * 2 powi (E - 23)"
    using powi_split[of "k - (E - 23)" "E - 23"] by simp
  also have "(2::real) powi (k - (E - 23)) = 2 ^ nat (k - (E - 23))"
    using j by (simp add: power_int_def)
  finally have k': "(2::real) powi k = 2 ^ nat (k - (E - 23)) * 2 powi (E - 23)" .
  have xn: "x = of_int n * 2 powi (E - 23)"
    by (simp add: x n_def k')
  then have "x / 2 powi (E - 23) = of_int n" by simp
  then have "float32 x = of_int n * 2 powi (E - 23)"
    using False by (simp add: float32_def Let_def E_def e_def)
  with xn show ?thesis by simp
qed

lemma float32_small_ints:
  "float32 0 = 0" "float32 1 = 1" "float32 255 = 255" "float32 (1 / 2) = 1 / 2"
  "float32 (- (1 / 2)) = - (1 / 2)" "float32 (255 / 2) = 255 / 2"
proof -
  show "float32 0 = 0" by (simp add: float32_def)
  show "float32 1 = 1" by (rule float32_exact[of _ 1 0]) simp_all
  show "float32 255 = 255" by (rule float32_exact[of _ 255 0]) simp_all
  show "float32 (1 / 2) = 1 / 2" by (rule float32_exact[of _ 1 "- 1"]) simp_all
  show "float32 (- (1 / 2)) = - (1 / 2)" by (rule float32_exact[of _ "- 1" "- 1"]) simp_all
  show "float32 (255 / 2) = 255 / 2" by (rule float32_exact[of _ 255 "- 1"]) simp_all
qed


lemma rne_near: "\<bar>real_of_int (rne x) - x\<bar> \<le> 1 / 2"
  unfolding rne_def Let_def by (auto simp: abs_if) linarith+

lemma rne_mono:
  assumes "x \<le> y"
  shows "rne x \<le> rne y"
proof (rule ccontr)
  assume "\<not> rne x \<le> rne y"
  then have "rne y + 1 \<le> rne x" by simp
  then have "real_of_int (rne y) + 1 \<le> real_of_int (rne x)"
    by (metis of_int_1 of_int_add of_int_le_iff)
  with rne_near[of x] rne_near[of y] assms have "x = y" by (simp add: abs_if split: if_splits)
  with \<open>\<not> rne x \<le> rne y\<close> show False by simp
qed

lemma rne_minus: "rne (- x) = - rne x"
proof (cases "x = of_int \<lfloor>x\<rfloor>")
  case True
  then obtain n where "x = of_int n" ..
  then have "rne (- x) = - n" "rne x = n"
    using rne_of_int[of "- n"] by simp_all
  then show ?thesis by simp
next
  case False
  then have f: "\<lfloor>- x\<rfloor> = - \<lfloor>x\<rfloor> - 1"
    by (metis ceiling_altdef floor_minus add_diff_cancel_right' minus_diff_eq
        uminus_add_conv_diff)
  show ?thesis
    unfolding rne_def Let_def f by (auto simp: algebra_simps)
qed

lemma float32_minus: "float32 (- x) = - float32 x"
  by (simp add: float32_def Let_def rne_minus)

lemma float32_nonneg:
  assumes "0 \<le> x"
  shows "0 \<le> float32 x"
proof (cases "x = 0")
  case True
  then show ?thesis by (simp add: float32_def)
next
  case False
  define u :: real where "u = 2 powi (max (- 126) \<lfloor>log 2 \<bar>x\<bar>\<rfloor> - 23)"
  have u: "0 < u" by (simp add: u_def)
  then have "0 \<le> x / u" using assms by simp
  then have "rne 0 \<le> rne (x / u)" by (rule rne_mono)
  then have "0 \<le> rne (x / u)" using rne_of_int[of 0] by simp
  then have "0 \<le> real_of_int (rne (x / u)) * u" using u by simp
  then show ?thesis using False by (simp add: float32_def Let_def u_def)
qed

lemma float32_nonpos:
  assumes "x \<le> 0"
  shows "float32 x \<le> 0"
  using float32_nonneg[of "- x"] assms by (simp add: float32_minus)


text \<open>A positive number and its rounding, against the powers of two around it.\<close>

lemma float32_upper:
  assumes "0 < x" and e: "E = max (- 126) \<lfloor>log 2 \<bar>x\<bar>\<rfloor>"
  shows "float32 x \<le> 2 powi (E + 1)"
proof -
  define u :: real where "u = 2 powi (E - 23)"
  have u: "0 < u" by (simp add: u_def)
  have "\<bar>x\<bar> < 2 powi (\<lfloor>log 2 \<bar>x\<bar>\<rfloor> + 1)"
    using assms(1) by (intro floor_log2_bounds) simp
  also have "\<dots> \<le> 2 powi (E + 1)"
    by (rule power_int_increasing) (simp_all add: e)
  finally have "x < 2 powi (E + 1)" using assms(1) by simp
  also have top: "(2::real) powi (E + 1) = 2 ^ 24 * u"
    using powi_split[of 24 "E - 23"] by (simp add: u_def add.commute)
  finally have "x / u < 2 ^ 24" using u by (simp add: field_simps)
  then have "x / u \<le> real_of_int (2 ^ 24)" by simp
  then have "rne (x / u) \<le> rne (real_of_int (2 ^ 24))" by (rule rne_mono)
  then have "rne (x / u) \<le> 2 ^ 24" by (simp only: rne_of_int)
  then have "real_of_int (rne (x / u)) \<le> 2 ^ 24"
    by (metis of_int_le_iff of_int_numeral of_int_power)
  then have "real_of_int (rne (x / u)) * u \<le> 2 ^ 24 * u"
    using u by (simp add: mult_right_mono)
  also have "\<dots> = 2 powi (E + 1)"
    by (simp only: top)
  finally show ?thesis
    using assms(1) by (simp add: float32_def Let_def u_def e)
qed

lemma float32_lower:
  assumes "2 powi e \<le> x" and "- 126 \<le> e" and "e = \<lfloor>log 2 \<bar>x\<bar>\<rfloor>"
  shows "2 powi e \<le> float32 x"
proof -
  define u :: real where "u = 2 powi (e - 23)"
  have u: "0 < u" by (simp add: u_def)
  have x: "0 < x" using assms(1) powi_pos[of e] by linarith
  have p: "(2::real) powi e = 2 ^ 23 * u"
    using powi_split[of 23 "e - 23"] by (simp add: u_def)
  then have "real_of_int (2 ^ 23) \<le> x / u"
    using assms(1) u by (simp add: field_simps)
  then have "rne (real_of_int (2 ^ 23)) \<le> rne (x / u)" by (rule rne_mono)
  then have "2 ^ 23 \<le> rne (x / u)" by (simp only: rne_of_int)
  then have "2 ^ 23 \<le> real_of_int (rne (x / u))"
    by (metis of_int_le_iff of_int_numeral of_int_power)
  then have "2 ^ 23 * u \<le> real_of_int (rne (x / u)) * u"
    using u by (simp add: mult_right_mono)
  moreover have "max (- 126) \<lfloor>log 2 \<bar>x\<bar>\<rfloor> = e" using assms(2,3) by simp
  ultimately show ?thesis
    using x by (simp add: float32_def Let_def u_def p)
qed

lemma float32_mono_pos:
  assumes "0 < x" "x \<le> y"
  shows "float32 x \<le> float32 y"
proof -
  define ex where "ex = \<lfloor>log 2 \<bar>x\<bar>\<rfloor>"
  define ey where "ey = \<lfloor>log 2 \<bar>y\<bar>\<rfloor>"
  define Ex where "Ex = max (- 126) ex"
  define Ey where "Ey = max (- 126) ey"
  have y: "0 < y" using assms by simp
  have "log 2 x \<le> log 2 y" using assms by simp
  then have "ex \<le> ey" using assms y by (simp add: ex_def ey_def floor_mono)
  then have E: "Ex \<le> Ey" by (simp add: Ex_def Ey_def)
  show ?thesis
  proof (cases "Ex = Ey")
    case True
    define u :: real where "u = 2 powi (Ex - 23)"
    have u: "0 < u" by (simp add: u_def)
    have "x / u \<le> y / u" using assms u by (simp add: divide_right_mono)
    then have "rne (x / u) \<le> rne (y / u)" by (rule rne_mono)
    then have "real_of_int (rne (x / u)) * u \<le> real_of_int (rne (y / u)) * u"
      using u by (simp add: mult_right_mono)
    moreover have "float32 x = real_of_int (rne (x / u)) * u"
      using assms(1) by (simp add: float32_def Let_def u_def Ex_def ex_def)
    moreover have "float32 y = real_of_int (rne (y / u)) * u"
      using y True by (simp add: float32_def Let_def u_def Ey_def ey_def)
    ultimately show ?thesis by simp
  next
    case False
    with E have lt: "Ex < Ey" by simp
    then have ey: "Ey = ey" "- 126 \<le> ey" unfolding Ex_def Ey_def by linarith+
    have "float32 x \<le> 2 powi (Ex + 1)"
      using assms(1) by (rule float32_upper) (simp add: Ex_def ex_def)
    also have "\<dots> \<le> 2 powi ey"
      using lt ey by (intro power_int_increasing) simp_all
    also have "\<dots> \<le> float32 y"
    proof (rule float32_lower)
      show "2 powi ey \<le> y"
        using floor_log2_bounds(1)[of y] y by (simp add: ey_def)
      show "- 126 \<le> ey" by (rule ey)
      show "ey = \<lfloor>log 2 \<bar>y\<bar>\<rfloor>" by (simp add: ey_def)
    qed
    finally show ?thesis .
  qed
qed

lemma float32_mono:
  assumes "x \<le> y"
  shows "float32 x \<le> float32 y"
proof -
  consider "0 < x" | "x \<le> 0" "0 \<le> y" | "y < 0" by linarith
  then show ?thesis
  proof cases
    case 1
    then show ?thesis using assms by (rule float32_mono_pos)
  next
    case 2
    then show ?thesis using float32_nonpos[of x] float32_nonneg[of y] by linarith
  next
    case 3
    then have "float32 (- y) \<le> float32 (- x)"
      using assms by (intro float32_mono_pos) simp_all
    then show ?thesis by (simp add: float32_minus)
  qed
qed


subsection \<open>Rendering a flat grid\<close>

lemma float32_half: "float32 0.5 = 1 / 2"
  using float32_small_ints(4) by simp

lemma flat_level_eq:
  "flat_level brightness contrast
   = clip (float32 (float32 (float32 (float32 contrast * (- (1 / 2))) + 1 / 2) + float32 brightness)) 0 1"
  by (simp add: flat_level_def float32_half float32_small_ints)

lemma flat_max_min:
  assumes "xs \<noteq> []" "\<forall>v \<in> set xs. v = c"
  shows "Max (set xs) = c" "Min (set xs) = c"
proof -
  have "set xs = {c}" using assms by (cases xs) auto
  then show "Max (set xs) = c" "Min (set xs) = c" by simp_all
qed

lemma heatmap_flat:
  assumes ne: "concat data \<noteq> []" and flat: "\<forall>v \<in> set (concat data). v = c"
  shows "heatmap_to_qimage colormaps jet data cmap gamma brightness contrast
         = Image (map (map (\<lambda>v. case (case colormaps cmap of Some c \<Rightarrow> c | None \<Rightarrow> jet)
                                        (flat_level brightness contrast) of
                                   (r, g, b) \<Rightarrow>
                                     (r, g, b, to_uint8 (float32 (flat_level brightness contrast * 255)))))
                      (rev data))"
proof -
  have ne': "concat (rev data) \<noteq> []" using ne by auto
  have flat': "\<forall>v \<in> set (concat (rev data)). v = c" using flat by auto
  have m: "Max (set (concat (rev data))) = c" "Min (set (concat (rev data))) = c"
    using flat_max_min[OF ne' flat'] by simp_all
  show ?thesis
    using ne unfolding heatmap_to_qimage_def Let_def m
    by (simp add: flat_level_def comp_def)
qed

lemma flat_level_range: "0 \<le> flat_level brightness contrast" "flat_level brightness contrast \<le> 1"
  by (simp_all add: flat_level_def clip_def)

lemma flat_byte_range:
  "0 \<le> float32 (flat_level brightness contrast * 255)"
  "float32 (flat_level brightness contrast * 255) \<le> 255"
proof -
  have "0 \<le> flat_level brightness contrast * 255"
    using flat_level_range(1)[of brightness contrast] by simp
  then show "0 \<le> float32 (flat_level brightness contrast * 255)" by (rule float32_nonneg)
  have "flat_level brightness contrast * 255 \<le> 255"
    using flat_level_range(2)[of brightness contrast] by simp
  then have "float32 (flat_level brightness contrast * 255) \<le> float32 255" by (rule float32_mono)
  then show "float32 (flat_level brightness contrast * 255) \<le> 255"
    by (simp add: float32_small_ints)
qed

lemma flat_byte:
  "to_uint8 (float32 (flat_level brightness contrast * 255))
   = nat \<lfloor>float32 (flat_level brightness contrast * 255)\<rfloor>"
  "to_uint8 (float32 (flat_level brightness contrast * 255)) \<le> 255"
  "to_uint8 (float32 (flat_level brightness contrast * 255)) = 0
   \<longleftrightarrow> float32 (flat_level brightness contrast * 255) < 1"
proof -
  define y where "y = float32 (flat_level brightness contrast * 255)"
  have y: "0 \<le> y" "y \<le> 255" using flat_byte_range by (simp_all add: y_def)
  then have f: "0 \<le> \<lfloor>y\<rfloor>" "\<lfloor>y\<rfloor> \<le> 255" by linarith+
  then have n: "nat \<lfloor>y\<rfloor> < 256" by linarith
  show "to_uint8 (float32 (flat_level brightness contrast * 255))
        = nat \<lfloor>float32 (flat_level brightness contrast * 255)\<rfloor>"
    using n by (simp add: to_uint8_def y_def)
  show "to_uint8 (float32 (flat_level brightness contrast * 255)) \<le> 255"
    using n by (simp add: to_uint8_def y_def)
  have "nat \<lfloor>y\<rfloor> = 0 \<longleftrightarrow> y < 1" using y by linarith
  then show "to_uint8 (float32 (flat_level brightness contrast * 255)) = 0
   \<longleftrightarrow> float32 (flat_level brightness contrast * 255) < 1"
    using n by (simp add: to_uint8_def y_def)
qed

lemma flat_level_zero:
  assumes "1 \<le> contrast" "brightness \<le> 0"
  shows "flat_level brightness contrast = 0"
proof -
  have "float32 1 \<le> float32 contrast" using assms(1) by (rule float32_mono)
  then have c: "1 \<le> float32 contrast" by (simp add: float32_small_ints)
  have "float32 (float32 contrast * (- (1 / 2))) \<le> float32 (- (1 / 2))"
    using c by (intro float32_mono) simp
  then have t2: "float32 (float32 contrast * (- (1 / 2))) \<le> - (1 / 2)"
    by (simp add: float32_small_ints)
  have t3: "float32 (float32 (float32 contrast * (- (1 / 2))) + 1 / 2) \<le> 0"
    using t2 by (intro float32_nonpos) simp
  have b: "float32 brightness \<le> 0" using assms(2) by (rule float32_nonpos)
  have "float32 (float32 (float32 (float32 contrast * (- (1 / 2))) + 1 / 2) + float32 brightness) \<le> 0"
    using t3 b by (intro float32_nonpos) simp
  then show ?thesis by (simp add: flat_level_eq clip_def)
qed

lemma flat_level_half: "flat_level (1 / 2) 1 = 1 / 2"
  by (simp add: flat_level_eq float32_small_ints clip_def)


text \<open>
  The level and the alpha byte at brightness \<open>-0.3\<close> and contrast 0: the cast of the
  brightness and the product with 255 both round, and the byte is 50, where exact
  arithmetic would give 51.
\<close>

lemma rne_eval:
  "rne (3 / 10 * 2 ^ 25) = 10066330"
  "rne (1711275930 / 2 ^ 25 * 2 ^ 18) = 13369343"
  by (simp_all add: rne_def Let_def)

lemma float32_three_tenths: "float32 (- (3 / 10)) = - (10066330 / 2 ^ 25)"
proof -
  have "float32 (3 / 10) = of_int (rne (3 / 10 / 2 powi (- 2 - 23))) * 2 powi (- 2 - 23)"
    by (rule float32_binade) simp_all
  also have "\<dots> = 10066330 / 2 ^ 25"
    using rne_eval(1) by (simp add: power_int_minus)
  finally show ?thesis by (simp add: float32_minus)
qed

lemma flat_level_example: "flat_level (- (3 / 10)) 0 = 6710886 / 2 ^ 25"
proof -
  have "float32 (6710886 / 2 ^ 25) = 6710886 / 2 ^ 25"
    by (rule float32_exact[of _ 6710886 "- 25"]) (simp_all add: power_int_minus)
  then show ?thesis
    by (simp add: flat_level_eq float32_small_ints float32_three_tenths clip_def)
qed

lemma flat_byte_example: "to_uint8 (float32 (flat_level (- (3 / 10)) 0 * 255)) = 50"
proof -
  have "float32 (1711275930 / 2 ^ 25)
        = of_int (rne (1711275930 / 2 ^ 25 / 2 powi (5 - 23))) * 2 powi (5 - 23)"
    by (rule float32_binade) simp_all
  also have "\<dots> = 13369343 / 2 ^ 18"
    using rne_eval(2) by (simp add: power_int_minus)
  finally have v: "float32 (flat_level (- (3 / 10)) 0 * 255) = 13369343 / 2 ^ 18"
    by (simp add: flat_level_example)
  have "to_uint8 (13369343 / 2 ^ 18) = 50" by (simp add: to_uint8_def)
  then show ?thesis by (simp only: v)
qed


text \<open>
  C8 (as amended). For every non-empty grid whose values are all equal, whatever blur
  produced it, and parameters within the float32 range, rendering takes the
  \<^verbatim>\<open>vmax == vmin\<close> branch: the normalised values are all zero, brightness and contrast
  are then applied to them in float32, and every pixel gets the same alpha, the byte of
  the float32 product of the clipped level with 255. The image is fully transparent
  exactly when that product is below 1; it is whenever the contrast is at least 1 and
  the brightness at most 0, so for the default brightness 0 and contrast 1.
\<close>

theorem heatmap_flat_grid_alpha:
  assumes "concat data \<noteq> []" and "\<forall>v \<in> set (concat data). v = c"
    and "\<bar>brightness\<bar> \<le> 2 ^ 126" and "\<bar>contrast\<bar> \<le> 2 ^ 126"
  shows "alphas (heatmap_to_qimage colormaps jet data cmap gamma brightness contrast)
           = map (map (\<lambda>v. to_uint8 (float32 (flat_level brightness contrast * 255)))) (rev data)
       \<and> to_uint8 (float32 (flat_level brightness contrast * 255))
           = nat \<lfloor>float32 (flat_level brightness contrast * 255)\<rfloor>
       \<and> to_uint8 (float32 (flat_level brightness contrast * 255)) \<le> 255
       \<and> (alphas (heatmap_to_qimage colormaps jet data cmap gamma brightness contrast)
            = map (map (\<lambda>v. 0)) (rev data)
          \<longleftrightarrow> float32 (flat_level brightness contrast * 255) < 1)
       \<and> (1 \<le> contrast \<and> brightness \<le> 0
            \<longrightarrow> alphas (heatmap_to_qimage colormaps jet data cmap gamma brightness contrast)
                  = map (map (\<lambda>v. 0)) (rev data))
       \<and> (brightness = 0 \<and> contrast = 1
            \<longrightarrow> alphas (heatmap_to_qimage colormaps jet data cmap gamma brightness contrast)
                  = map (map (\<lambda>v. 0)) (rev data))"
proof -
  define a where "a = to_uint8 (float32 (flat_level brightness contrast * 255))"
  have al: "alphas (heatmap_to_qimage colormaps jet data cmap gamma brightness contrast)
           = map (map (\<lambda>v. a)) (rev data)"
    unfolding heatmap_flat[OF assms(1,2)] a_def
    by (simp add: comp_def split: prod.splits)
  obtain v where "v \<in> set (concat data)"
    using assms(1) by (cases "concat data") auto
  then obtain row where rv: "row \<in> set (rev data)" "v \<in> set row"
    by auto
  have same: "map (map (\<lambda>v. a)) (rev data) = map (map (\<lambda>v. 0)) (rev data) \<longleftrightarrow> a = 0"
  proof
    assume "map (map (\<lambda>v. a)) (rev data) = map (map (\<lambda>v. 0)) (rev data)"
    then have "\<forall>r \<in> set (rev data). map (\<lambda>v. a) r = map (\<lambda>v. 0) r"
      by (simp only: map_eq_conv)
    then have "map (\<lambda>v. a) row = map (\<lambda>v. 0) row" using rv(1) by blast
    then have "\<forall>x \<in> set row. a = 0" by (simp only: map_eq_conv)
    then show "a = 0" using rv(2) by blast
  next
    assume "a = 0"
    then show "map (map (\<lambda>v. a)) (rev data) = map (map (\<lambda>v. 0)) (rev data)" by simp
  qed
  have z: "a = 0" if "1 \<le> contrast \<and> brightness \<le> 0"
    using that flat_level_zero[of contrast brightness]
    by (simp add: a_def float32_small_ints to_uint8_def)
  have z': "a = 0" if "brightness = 0 \<and> contrast = 1"
    using that z by simp
  show ?thesis
    unfolding al same
    using flat_byte[of brightness contrast] z z' by (simp add: a_def)
qed

theorem heatmap_flat_grid_alpha_witness:
  "concat [[0, 0], [0, 0::real]] \<noteq> [] \<and> set (concat [[0, 0], [0, 0::real]]) = {0}
   \<and> \<bar>0::real\<bar> \<le> 2 ^ 126 \<and> \<bar>1::real\<bar> \<le> 2 ^ 126
   \<and> alphas (heatmap_to_qimage (\<lambda>n. None) (\<lambda>v. (0, 0, 128)) [[0, 0], [0, 0]] ''jet'' (1 / 3) 0 1)
       = [[0, 0], [0, 0]]"
proof -
  have n: "concat [[0, 0], [0, 0::real]] \<noteq> []" by simp
  have f: "\<forall>v \<in> set (concat [[0, 0], [0, 0::real]]). v = 0" by simp
  have b: "\<bar>0::real\<bar> \<le> 2 ^ 126" "\<bar>1::real\<bar> \<le> 2 ^ 126" by simp_all
  from heatmap_flat_grid_alpha [OF n f b, where colormaps = "\<lambda>n. None" and jet = "\<lambda>v. (0, 0, 128)"
      and cmap = "''jet''" and gamma = "1 / 3"]
  have "alphas (heatmap_to_qimage (\<lambda>n. None) (\<lambda>v. (0, 0, 128)) [[0, 0], [0, 0]] ''jet'' (1 / 3) 0 1)
       = map (map (\<lambda>v. 0)) (rev [[0, 0], [0, 0::real]])"
    by blast
  then show ?thesis by simp
qed

text \<open>
  An all-zero grid at brightness 0.5 and contrast 1, both within the range of the
  sliders: every pixel has alpha 127. Each step is exact in float32.
\<close>

theorem heatmap_flat_grid_counterexample:
  "alphas (heatmap_to_qimage (\<lambda>n. None) (\<lambda>v. (0, 0, 128)) [[0, 0], [0, 0]] ''jet'' (1 / 3) (1 / 2) 1)
     = [[127, 127], [127, 127]]"
proof -
  have n: "concat [[0, 0], [0, 0::real]] \<noteq> []" by simp
  have f: "\<forall>v \<in> set (concat [[0, 0], [0, 0::real]]). v = 0" by simp
  have "to_uint8 (float32 (flat_level (1 / 2) 1 * 255)) = 127"
    by (simp add: flat_level_half float32_small_ints to_uint8_def)
  then show ?thesis
    unfolding heatmap_flat[OF n f] by simp
qed

subsection \<open>The lookup of \<^verbatim>\<open>_parse\<close>\<close>

lemma find_path_isfile: "isfile dir fp \<longleftrightarrow> find (\<lambda>f. path f = fp) dir \<noteq> None"
  by (induction dir) (auto simp: isfile_def)

lemma disk_entry_SomeD:
  assumes "disk_entry w self = Some data"
  shows "\<exists>f h fs. find (\<lambda>f. path f = external_cache_path (demo_file self)) (disk w) = Some f
           \<and> content f = Pickled data \<and> s_header data = Some h \<and> s_footsteps data = Some fs"
  using assms unfolding disk_entry_def
  by (simp split: option.splits artifact.splits if_splits)

lemma load_from_cache_hit:
  assumes "disk_entry w self = Some data"
  shows "isfile (disk w) (external_cache_path (demo_file self))"
    and "load_from_cache w self (external_cache_path (demo_file self))
         = (True, read_entry self data, w\<lparr>mem := (mem w)(demo_file self \<mapsto> data)\<rparr>)"
proof -
  from disk_entry_SomeD[OF assms] obtain f h fs where
    f: "find (\<lambda>f. path f = external_cache_path (demo_file self)) (disk w) = Some f"
      "content f = Pickled data" "s_header data = Some h" "s_footsteps data = Some fs"
    by blast
  show "isfile (disk w) (external_cache_path (demo_file self))"
    using f(1) by (simp add: find_path_isfile)
  show "load_from_cache w self (external_cache_path (demo_file self))
         = (True, read_entry self data, w\<lparr>mem := (mem w)(demo_file self \<mapsto> data)\<rparr>)"
    unfolding load_from_cache_def read_entry_def by (simp add: f)
qed

lemma load_from_cache_miss:
  assumes "disk_entry w self = None"
  shows "\<exists>h. load_from_cache w self (external_cache_path (demo_file self)) = (False, self, w) \<or>
             load_from_cache w self (external_cache_path (demo_file self))
               = (False, self\<lparr>header := h\<rparr>, w)"
proof (cases "find (\<lambda>f. path f = external_cache_path (demo_file self)) (disk w)")
  case None
  then show ?thesis by (simp add: load_from_cache_def)
next
  case (Some f)
  show ?thesis
  proof (cases "content f")
    case Corrupt
    with Some show ?thesis by (simp add: load_from_cache_def)
  next
    case (Pickled data)
    with Some assms have "s_header data = None \<or> s_footsteps data = None"
      by (simp add: disk_entry_def split: if_splits)
    with Some Pickled show ?thesis
      by (cases "s_header data") (auto simp: load_from_cache_def)
  qed
qed


lemma fresh_parse_header [simp]: "fresh_parse parser (self\<lparr>header := h\<rparr>) = fresh_parse parser self"
proof -
  have "self\<lparr>header := h, header := h'\<rparr> = self\<lparr>header := h'\<rparr>" for h' by simp
  then show ?thesis unfolding fresh_parse_def by (simp only:)
qed

lemma read_entry_header [simp]:
  "readable data \<Longrightarrow> read_entry (self\<lparr>header := h\<rparr>) data = read_entry self data"
  by (auto simp: read_entry_def readable_def)

lemma load_from_memory_cache_cases:
  "load_from_memory_cache w self =
     (case mem w (demo_file self) of
        None \<Rightarrow> Inr (False, self)
      | Some cached \<Rightarrow>
          if s_header cached = None then Inl (KeyError ''header'')
          else if s_footsteps cached = None then Inl (KeyError ''footsteps'')
          else Inr (True, read_entry self cached))"
  by (simp add: load_from_memory_cache_def read_entry_def split: option.splits)

text \<open>What \<^verbatim>\<open>_parse\<close> does once the file of the folder gave nothing.\<close>

lemma after_disk_miss:
  "(case load_from_memory_cache w (self\<lparr>header := h\<rparr>) of
      Inl e \<Rightarrow> Inl e
    | Inr (found, self2) \<Rightarrow>
        if found then Inr (self2, w)
        else (case fresh_parse parser self2 of
                Inl e \<Rightarrow> Inl e
              | Inr d \<Rightarrow> Inr (d, store_to_cache wr d w)))
   = (case load_from_memory_cache w self of
        Inl e \<Rightarrow> Inl e
      | Inr (found, self2) \<Rightarrow>
          if found then Inr (self2, w)
          else (case fresh_parse parser self of
                  Inl e \<Rightarrow> Inl e
                | Inr d \<Rightarrow> Inr (d, store_to_cache wr d w)))"
proof (cases "mem w (demo_file self)")
  case None
  then show ?thesis by (simp add: load_from_memory_cache_cases)
next
  case (Some cached)
  show ?thesis
  proof (cases "readable cached")
    case True
    with Some show ?thesis by (simp add: load_from_memory_cache_cases readable_def)
  next
    case False
    with Some show ?thesis by (auto simp: load_from_memory_cache_cases readable_def)
  qed
qed

lemma parse_disk_hit:
  assumes "disk_entry w self = Some data"
  shows "parse parser wr w self
         = Inr (read_entry self data, w\<lparr>mem := (mem w)(demo_file self \<mapsto> data)\<rparr>)"
  using load_from_cache_hit[OF assms] by (simp add: parse_def)

lemma parse_disk_miss:
  assumes "disk_entry w self = None"
  shows "parse parser wr w self
         = (case load_from_memory_cache w self of
              Inl e \<Rightarrow> Inl e
            | Inr (found, self2) \<Rightarrow>
                if found then Inr (self2, w)
                else (case fresh_parse parser self of
                        Inl e \<Rightarrow> Inl e
                      | Inr d \<Rightarrow> Inr (d, store_to_cache wr d w)))"
proof (cases "isfile (disk w) (external_cache_path (demo_file self))")
  case False
  have "(case load_from_memory_cache w self of
              Inl e \<Rightarrow> Inl e
            | Inr (found, self2) \<Rightarrow>
                if found then Inr (self2, w)
                else (case fresh_parse parser self2 of
                        Inl e \<Rightarrow> Inl e
                      | Inr d \<Rightarrow> Inr (d, store_to_cache wr d w)))
        = (case load_from_memory_cache w self of
              Inl e \<Rightarrow> Inl e
            | Inr (found, self2) \<Rightarrow>
                if found then Inr (self2, w)
                else (case fresh_parse parser self of
                        Inl e \<Rightarrow> Inl e
                      | Inr d \<Rightarrow> Inr (d, store_to_cache wr d w)))"
    using after_disk_miss[where w = w and self = self and h = "header self" and parser = parser and wr = wr] by simp
  with False show ?thesis by (simp add: parse_def)
next
  case True
  from load_from_cache_miss[OF assms]
  obtain h where "load_from_cache w self (external_cache_path (demo_file self)) = (False, self, w)
     \<or> load_from_cache w self (external_cache_path (demo_file self)) = (False, self\<lparr>header := h\<rparr>, w)"
    by blast
  then show ?thesis
  proof
    assume "load_from_cache w self (external_cache_path (demo_file self)) = (False, self, w)"
    with True show ?thesis
      using after_disk_miss[where w = w and self = self and h = "header self" and parser = parser and wr = wr] by (simp add: parse_def)
  next
    assume "load_from_cache w self (external_cache_path (demo_file self)) = (False, self\<lparr>header := h\<rparr>, w)"
    with True show ?thesis
      using after_disk_miss[where w = w and self = self and h = h and parser = parser and wr = wr] by (simp add: parse_def)
  qed
qed


lemma cache_path_a: "external_cache_path ''/demos/a.dem'' = ''demcache_a.dem.pkl''"
  by (simp add: external_cache_path_def basename_def safe_char_def)

lemma disk_entry_both_tiers:
  "disk_entry both_tiers_world (init_demo ''/demos/a.dem'') = Some inferno_data"
  by (simp add: disk_entry_def init_demo_def cache_path_a both_tiers_world_def inferno_data_def)

lemma disk_entry_corrupt:
  "disk_entry corrupt_disk_world (init_demo ''/demos/a.dem'') = None"
  "disk_entry (corrupt_disk_world\<lparr>mem := Map.empty\<rparr>) (init_demo ''/demos/a.dem'') = None"
  by (simp_all add: disk_entry_def init_demo_def cache_path_a corrupt_disk_world_def)

lemma readable_dust: "readable dust_data"
  by (simp add: readable_def dust_data_def)

lemma fresh_parse_mirage:
  "fresh_parse mirage_decoder (init_demo ''/demos/a.dem'') = Inr mirage_demo"
  by (simp add: fresh_parse_def mirage_decoder_def init_demo_def mirage_demo_def)

text \<open>
  C1 (as amended). For every file identity, the lookup of \<^verbatim>\<open>_parse\<close> reads the on-disk
  tier first and the in-process tier second: a readable file of the cache path is
  returned whatever the in-process tier holds, and its dictionary is inserted into the
  in-process tier before the lookup returns; only when the disk gives nothing is a
  readable in-process entry returned, and only when both give nothing is the file parsed.
\<close>

theorem parse_checks_disk_then_memory:
  "(disk_entry w self = Some data
      \<longrightarrow> parse parser wr w self
          = Inr (read_entry self data, w\<lparr>mem := (mem w)(demo_file self \<mapsto> data)\<rparr>))
   \<and> (disk_entry w self = None \<and> mem w (demo_file self) = Some cached \<and> readable cached
      \<longrightarrow> parse parser wr w self = Inr (read_entry self cached, w))
   \<and> (disk_entry w self = None \<and> mem w (demo_file self) = None
      \<longrightarrow> parse parser wr w self
          = (case fresh_parse parser self of
               Inl e \<Rightarrow> Inl e
             | Inr d \<Rightarrow> Inr (d, store_to_cache wr d w)))"
proof (intro conjI impI)
  assume "disk_entry w self = Some data"
  then show "parse parser wr w self
          = Inr (read_entry self data, w\<lparr>mem := (mem w)(demo_file self \<mapsto> data)\<rparr>)"
    by (rule parse_disk_hit)
next
  assume "disk_entry w self = None \<and> mem w (demo_file self) = Some cached \<and> readable cached"
  then show "parse parser wr w self = Inr (read_entry self cached, w)"
    by (simp add: parse_disk_miss load_from_memory_cache_cases readable_def)
next
  assume "disk_entry w self = None \<and> mem w (demo_file self) = None"
  then show "parse parser wr w self
          = (case fresh_parse parser self of
               Inl e \<Rightarrow> Inl e
             | Inr d \<Rightarrow> Inr (d, store_to_cache wr d w))"
    by (simp add: parse_disk_miss load_from_memory_cache_cases)
qed

theorem parse_checks_disk_then_memory_witness:
  "disk_entry both_tiers_world (init_demo ''/demos/a.dem'') = Some inferno_data
   \<and> parse mirage_decoder Refused both_tiers_world (init_demo ''/demos/a.dem'')
       = Inr (read_entry (init_demo ''/demos/a.dem'') inferno_data,
              both_tiers_world\<lparr>mem := (mem both_tiers_world)(''/demos/a.dem'' \<mapsto> inferno_data)\<rparr>)
   \<and> disk_entry corrupt_disk_world (init_demo ''/demos/a.dem'') = None
   \<and> mem corrupt_disk_world ''/demos/a.dem'' = Some dust_data
   \<and> readable dust_data
   \<and> parse mirage_decoder Refused corrupt_disk_world (init_demo ''/demos/a.dem'')
       = Inr (read_entry (init_demo ''/demos/a.dem'') dust_data, corrupt_disk_world)
   \<and> disk_entry (corrupt_disk_world\<lparr>mem := Map.empty\<rparr>) (init_demo ''/demos/a.dem'') = None
   \<and> parse mirage_decoder Refused (corrupt_disk_world\<lparr>mem := Map.empty\<rparr>) (init_demo ''/demos/a.dem'')
       = Inr (mirage_demo, store_to_cache Refused mirage_demo (corrupt_disk_world\<lparr>mem := Map.empty\<rparr>))"
proof -
  have f: "demo_file (init_demo ''/demos/a.dem'' :: (rat, unit) demo) = ''/demos/a.dem''"
    by (simp add: init_demo_def)
  have m: "mem corrupt_disk_world ''/demos/a.dem'' = Some dust_data"
    by (simp add: corrupt_disk_world_def)
  have a: "parse mirage_decoder Refused both_tiers_world (init_demo ''/demos/a.dem'')
       = Inr (read_entry (init_demo ''/demos/a.dem'') inferno_data,
              both_tiers_world\<lparr>mem := (mem both_tiers_world)(''/demos/a.dem'' \<mapsto> inferno_data)\<rparr>)"
    using parse_checks_disk_then_memory
      [where w = both_tiers_world and self = "init_demo ''/demos/a.dem''" and data = inferno_data
         and parser = mirage_decoder and wr = Refused]
      disk_entry_both_tiers
    by (simp only: f)
  have b: "parse mirage_decoder Refused corrupt_disk_world (init_demo ''/demos/a.dem'')
       = Inr (read_entry (init_demo ''/demos/a.dem'') dust_data, corrupt_disk_world)"
    using parse_checks_disk_then_memory
      [where w = corrupt_disk_world and self = "init_demo ''/demos/a.dem''" and cached = dust_data
         and parser = mirage_decoder and wr = Refused]
      disk_entry_corrupt(1) m readable_dust
    by (simp only: f)
  have c: "parse mirage_decoder Refused (corrupt_disk_world\<lparr>mem := Map.empty\<rparr>) (init_demo ''/demos/a.dem'')
       = Inr (mirage_demo, store_to_cache Refused mirage_demo (corrupt_disk_world\<lparr>mem := Map.empty\<rparr>))"
    using parse_checks_disk_then_memory
      [where w = "corrupt_disk_world\<lparr>mem := Map.empty\<rparr>" and self = "init_demo ''/demos/a.dem''"
         and parser = mirage_decoder and wr = Refused]
      disk_entry_corrupt(2)
    by (simp add: f fresh_parse_mirage)
  show ?thesis
    using a b c disk_entry_both_tiers disk_entry_corrupt m readable_dust by simp
qed

text \<open>
  Both tiers hold an entry for the file: the in-process tier the map \<^verbatim>\<open>de_dust2\<close>, the
  file of the folder the map \<^verbatim>\<open>de_inferno\<close>. The lookup returns the entry of the disk.
\<close>

theorem parse_memory_first_counterexample:
  "(case mem both_tiers_world ''/demos/a.dem'' of
      None \<Rightarrow> None
    | Some c \<Rightarrow> (case s_header c of None \<Rightarrow> None | Some h \<Rightarrow> h ''map_name'')) = Some ''de_dust2''
   \<and> (case parse mirage_decoder Refused both_tiers_world (init_demo ''/demos/a.dem'') of
        Inl e \<Rightarrow> None
      | Inr (d, w) \<Rightarrow> header d ''map_name'') = Some ''de_inferno''"
proof -
  note p = parse_disk_hit[OF disk_entry_both_tiers, of mirage_decoder Refused]
  have m: "mem both_tiers_world ''/demos/a.dem'' = Some dust_data"
    by (simp add: both_tiers_world_def)
  show ?thesis
    unfolding p m by (simp add: read_entry_def inferno_data_def dust_data_def)
qed

text \<open>
  C6 (as amended). When the file of the cache path exists and cannot be read (it does
  not unpickle, or lacks a key), the on-disk tier behaves as a miss: the lookup goes on
  to the in-process tier and returns a readable entry found there; when nothing is
  found there the source file is parsed again. No exception leaves \<^verbatim>\<open>_parse\<close> because
  of the file: one that does is the decoder's or the \<^verbatim>\<open>KeyError\<close> of an in-process
  entry without \<^verbatim>\<open>"header"\<close> or \<^verbatim>\<open>"footsteps"\<close>.
\<close>

theorem unreadable_artifact_is_disk_miss:
  assumes "isfile (disk w) (external_cache_path (demo_file self))"
    and "\<not> fst (load_from_cache w self (external_cache_path (demo_file self)))"
  shows "(mem w (demo_file self) = None
            \<longrightarrow> parse parser wr w self
                = (case fresh_parse parser self of
                     Inl e \<Rightarrow> Inl e
                   | Inr d \<Rightarrow> Inr (d, store_to_cache wr d w)))
       \<and> (\<forall>cached. mem w (demo_file self) = Some cached \<and> readable cached
            \<longrightarrow> parse parser wr w self = Inr (read_entry self cached, w))
       \<and> (\<forall>e. parse parser wr w self = Inl e
            \<longrightarrow> fresh_parse parser self = Inl e
                \<or> (\<exists>cached. mem w (demo_file self) = Some cached \<and> \<not> readable cached))"
proof -
  have miss: "disk_entry w self = None"
  proof (cases "disk_entry w self")
    case None then show ?thesis .
  next
    case (Some data)
    from load_from_cache_hit(2)[OF Some] assms(2) show ?thesis by simp
  qed
  show ?thesis
    unfolding parse_disk_miss[OF miss] load_from_memory_cache_cases
    by (auto simp: readable_def split: option.splits sum.splits if_splits)
qed

theorem unreadable_artifact_is_disk_miss_witness:
  "isfile (disk corrupt_disk_world) (external_cache_path ''/demos/a.dem'')
   \<and> \<not> fst (load_from_cache corrupt_disk_world (init_demo ''/demos/a.dem'')
              (external_cache_path ''/demos/a.dem''))
   \<and> mem corrupt_disk_world ''/demos/a.dem'' = Some dust_data
   \<and> readable dust_data
   \<and> parse mirage_decoder Refused corrupt_disk_world (init_demo ''/demos/a.dem'')
       = Inr (read_entry (init_demo ''/demos/a.dem'') dust_data, corrupt_disk_world)"
proof -
  have f: "demo_file (init_demo ''/demos/a.dem'' :: (rat, unit) demo) = ''/demos/a.dem''"
    by (simp add: init_demo_def)
  have i: "isfile (disk corrupt_disk_world) (external_cache_path ''/demos/a.dem'')"
    by (simp add: isfile_def cache_path_a corrupt_disk_world_def)
  have l: "\<not> fst (load_from_cache corrupt_disk_world (init_demo ''/demos/a.dem'')
              (external_cache_path ''/demos/a.dem''))"
    by (simp add: load_from_cache_def cache_path_a corrupt_disk_world_def)
  have m: "mem corrupt_disk_world ''/demos/a.dem'' = Some dust_data"
    by (simp add: corrupt_disk_world_def)
  from unreadable_artifact_is_disk_miss
    [where w = corrupt_disk_world and self = "init_demo ''/demos/a.dem''"
       and parser = mirage_decoder and wr = Refused, unfolded f, OF i l]
  have "parse mirage_decoder Refused corrupt_disk_world (init_demo ''/demos/a.dem'')
       = Inr (read_entry (init_demo ''/demos/a.dem'') dust_data, corrupt_disk_world)"
    using m readable_dust by blast
  then show ?thesis using i l m readable_dust by simp
qed

text \<open>
  The file of the folder is corrupt and the in-process tier holds an entry for the map
  \<^verbatim>\<open>de_dust2\<close>, while parsing the source file would give the map \<^verbatim>\<open>de_mirage\<close>: the
  lookup returns the in-process entry and the source file is not parsed again.
\<close>

theorem unreadable_artifact_reparse_counterexample:
  "content (hd (disk corrupt_disk_world)) = Corrupt
   \<and> path (hd (disk corrupt_disk_world)) = external_cache_path ''/demos/a.dem''
   \<and> (case fresh_parse mirage_decoder (init_demo ''/demos/a.dem'') of
        Inl e \<Rightarrow> None
      | Inr d \<Rightarrow> header d ''map_name'') = Some ''de_mirage''
   \<and> (case parse mirage_decoder Refused corrupt_disk_world (init_demo ''/demos/a.dem'') of
        Inl e \<Rightarrow> None
      | Inr (d, w) \<Rightarrow> header d ''map_name'') = Some ''de_dust2''
   \<and> (case parse mirage_decoder Refused corrupt_disk_world (init_demo ''/demos/a.dem'') of
        Inl e \<Rightarrow> False
      | Inr (d, w) \<Rightarrow> disk w = disk corrupt_disk_world)"
proof -
  have m: "mem corrupt_disk_world (demo_file (init_demo ''/demos/a.dem'' :: (rat, unit) demo))
           = Some dust_data"
    by (simp add: corrupt_disk_world_def init_demo_def)
  have p: "parse mirage_decoder Refused corrupt_disk_world (init_demo ''/demos/a.dem'')
           = Inr (read_entry (init_demo ''/demos/a.dem'') dust_data, corrupt_disk_world)"
    unfolding parse_disk_miss[OF disk_entry_corrupt(1)] load_from_memory_cache_cases m
    by (simp add: dust_data_def)
  have c: "content (hd (disk corrupt_disk_world)) = Corrupt
     \<and> path (hd (disk corrupt_disk_world)) = external_cache_path ''/demos/a.dem''"
    by (simp add: corrupt_disk_world_def cache_path_a)
  show ?thesis
    unfolding p fresh_parse_mirage using c
    by (simp add: mirage_demo_def read_entry_def dust_data_def)
qed

subsection \<open>A fresh parse and the header\<close>

lemma foldl_keeps:
  assumes "\<And>s r. g (f s r) = g s"
  shows "g (foldl f s rows) = g s"
  by (induction rows arbitrary: s) (simp_all add: assms)

lemma footstep_step_keeps:
  "demo_file (footstep_step df s r) = demo_file s" "header (footstep_step df s r) = header s"
  by (simp_all add: footstep_step_def Let_def split: option.splits)

lemma roster_step_keeps:
  "demo_file (roster_step s r) = demo_file s" "header (roster_step s r) = header s"
  by (simp_all add: roster_step_def split: option.splits)

lemma fallback_step_keeps:
  "demo_file (fallback_step df s r) = demo_file s" "header (fallback_step df s r) = header s"
  by (simp_all add: fallback_step_def Let_def split: option.splits)

lemmas loops_keep =
  foldl_keeps[of demo_file, OF footstep_step_keeps(1)] foldl_keeps[of header, OF footstep_step_keeps(2)]
  foldl_keeps[of demo_file, OF roster_step_keeps(1)] foldl_keeps[of header, OF roster_step_keeps(2)]
  foldl_keeps[of demo_file, OF fallback_step_keeps(1)] foldl_keeps[of header, OF fallback_step_keeps(2)]

lemma fresh_parse_fails_iff:
  "isl (fresh_parse parser self)
   \<longleftrightarrow> open_error parser \<noteq> None \<or> isl (death_tables parser) \<or> isl (round_end parser)"
  by (simp add: fresh_parse_def Let_def split: option.splits sum.splits prod.splits)

lemma fresh_parse_keeps:
  assumes "fresh_parse parser self = Inr d"
  shows "demo_file d = demo_file self"
    and "header d = (case parse_header parser of Inl e \<Rightarrow> Map.empty | Inr h \<Rightarrow> h)"
proof -
  from assms obtain wc dd re where
    ok: "open_error parser = None" "death_tables parser = Inr (wc, dd)" "round_end parser = Inr re"
    by (auto simp: fresh_parse_def Let_def split: option.splits sum.splits prod.splits)
  have d: "d = (let self1 = self\<lparr>header := (case parse_header parser of Inl e \<Rightarrow> Map.empty | Inr h \<Rightarrow> h)\<rparr>;
                   self2 = self1\<lparr>weapon_popularity := Some wc, player_deaths := Some dd\<rparr>;
                   ticks_df = (case parse_ticks parser of Inl e \<Rightarrow> None | Inr t \<Rightarrow> t);
                   self3 = (case ticks_df of
                              None \<Rightarrow> self2\<lparr>footsteps := []\<rparr>
                            | Some df \<Rightarrow> foldl (footstep_step df) (self2\<lparr>footsteps := []\<rparr>) (tick_rows df));
                   self4 = self3\<lparr>rounds := (case re of None \<Rightarrow> [] | Some rows \<Rightarrow> foldl round_step [] rows)\<rparr>;
                   self5 = (case parse_player_info parser of
                              Inl e \<Rightarrow> self4
                            | Inr None \<Rightarrow> self4
                            | Inr (Some rows) \<Rightarrow> foldl roster_step self4 rows)
               in case ticks_df of
                    None \<Rightarrow> self5
                  | Some df \<Rightarrow>
                      if player_teams self5 = Map.empty
                      then foldl (fallback_step df) self5 (tick_rows df)
                      else self5)"
    using assms unfolding fresh_parse_def ok by (simp add: Let_def)
  show "demo_file d = demo_file self"
    unfolding d Let_def by (simp add: loops_keep split: option.splits sum.splits)
  show "header d = (case parse_header parser of Inl e \<Rightarrow> Map.empty | Inr h \<Rightarrow> h)"
    unfolding d Let_def by (simp add: loops_keep split: option.splits sum.splits)
qed

subsection \<open>Opening a demo\<close>

lemma on_parsed_cases:
  "on_parsed parser wr c w loaded f hdr err =
     (if c then (Canceled, loaded, w)
      else if err \<noteq> [] then (ParseErrorWarning err, loaded, w)
      else if hdr ''map_name'' = None \<or> hdr ''map_name'' = Some [] then (InvalidDemWarning, loaded, w)
      else (case DemoFileParser parser wr w f of
              Inl e \<Rightarrow> (ParserErrorWarning (err_str e), loaded, w)
            | Inr (dp, w') \<Rightarrow>
                (Registered,
                 loaded @ [\<lparr>l_file = f, l_map = the (hdr ''map_name''),
                            l_addons = (case hdr ''addons'' of None \<Rightarrow> [] | Some a \<Rightarrow> a),
                            l_enabled = True, l_parser = dp\<rparr>],
                 w')))"
  by (auto simp: on_parsed_def Let_def split: option.splits sum.splits)

lemma run_one_unreadable_header:
  assumes miss: "disk_entry w (init_demo f) = None" "mem w f = None"
    and hd: "isl (parse_header parser)"
    and ok: "\<not> isl (fresh_parse parser (init_demo f))"
  shows "fst (run_one parser wr w f) = (Map.empty, [])"
proof -
  from ok obtain d where d: "fresh_parse parser (init_demo f) = Inr d"
    by (cases "fresh_parse parser (init_demo f)") auto
  have "header d = Map.empty"
    using fresh_parse_keeps(2)[OF d] hd by (cases "parse_header parser") auto
  moreover have "demo_file (init_demo f :: ('a, 'b) demo) = f" by (simp add: init_demo_def)
  ultimately show ?thesis
    using miss d
    by (simp add: run_one_def DemoFileParser_def parse_disk_miss load_from_memory_cache_cases)
qed

text \<open>
  C2 (as amended). Normalisation does not fail because of the header: it fails exactly
  when the decoder cannot be opened or one of the death or round-end queries raises, and
  an unreadable header is replaced by the empty header. The caller rejects the demo
  instead: \<^verbatim>\<open>on_parsed\<close> registers a file only when no error was reported and the
  reported header has a non-empty \<^verbatim>\<open>map_name\<close>; a header without one gives the warning
  \<^verbatim>\<open>Invalid DEM\<close> and leaves the list of loaded demos as it was, which is what happens
  to a file whose header cannot be read.
\<close>

theorem header_failure_rejected_by_caller:
  "(isl (fresh_parse parser self)
      \<longleftrightarrow> open_error parser \<noteq> None \<or> isl (death_tables parser) \<or> isl (round_end parser))
   \<and> (\<forall>d. fresh_parse parser self = Inr d
        \<longrightarrow> header d = (case parse_header parser of Inl e \<Rightarrow> Map.empty | Inr h \<Rightarrow> h))
   \<and> (fst (on_parsed parser wr c w loaded f hdr err) = Registered
        \<longrightarrow> \<not> c \<and> err = [] \<and> (\<exists>m. hdr ''map_name'' = Some m \<and> m \<noteq> []))
   \<and> (fst (on_parsed parser wr c w loaded f hdr err) \<noteq> Registered
        \<longrightarrow> fst (snd (on_parsed parser wr c w loaded f hdr err)) = loaded)
   \<and> (\<not> c \<and> err = [] \<and> (hdr ''map_name'' = None \<or> hdr ''map_name'' = Some [])
        \<longrightarrow> on_parsed parser wr c w loaded f hdr err = (InvalidDemWarning, loaded, w))
   \<and> (\<not> c \<and> err \<noteq> []
        \<longrightarrow> on_parsed parser wr c w loaded f hdr err = (ParseErrorWarning err, loaded, w))
   \<and> (disk_entry w (init_demo f) = None \<and> mem w f = None \<and> isl (parse_header parser)
        \<and> \<not> isl (fresh_parse parser (init_demo f)) \<and> \<not> c
        \<longrightarrow> fst (open_one parser wra wrb c w loaded f) = InvalidDemWarning
            \<and> fst (snd (open_one parser wra wrb c w loaded f)) = loaded)"
proof (intro conjI)
  show "isl (fresh_parse parser self)
      \<longleftrightarrow> open_error parser \<noteq> None \<or> isl (death_tables parser) \<or> isl (round_end parser)"
    by (rule fresh_parse_fails_iff)
  show "\<forall>d. fresh_parse parser self = Inr d
        \<longrightarrow> header d = (case parse_header parser of Inl e \<Rightarrow> Map.empty | Inr h \<Rightarrow> h)"
    using fresh_parse_keeps(2) by blast
  show "fst (on_parsed parser wr c w loaded f hdr err) = Registered
        \<longrightarrow> \<not> c \<and> err = [] \<and> (\<exists>m. hdr ''map_name'' = Some m \<and> m \<noteq> [])"
    unfolding on_parsed_cases by (auto split: if_splits sum.splits)
  show "fst (on_parsed parser wr c w loaded f hdr err) \<noteq> Registered
        \<longrightarrow> fst (snd (on_parsed parser wr c w loaded f hdr err)) = loaded"
    unfolding on_parsed_cases by (auto split: if_splits sum.splits)
  show "\<not> c \<and> err = [] \<and> (hdr ''map_name'' = None \<or> hdr ''map_name'' = Some [])
        \<longrightarrow> on_parsed parser wr c w loaded f hdr err = (InvalidDemWarning, loaded, w)"
    unfolding on_parsed_cases by simp
  show "\<not> c \<and> err \<noteq> []
        \<longrightarrow> on_parsed parser wr c w loaded f hdr err = (ParseErrorWarning err, loaded, w)"
    unfolding on_parsed_cases by simp
  show "disk_entry w (init_demo f) = None \<and> mem w f = None \<and> isl (parse_header parser)
        \<and> \<not> isl (fresh_parse parser (init_demo f)) \<and> \<not> c
        \<longrightarrow> fst (open_one parser wra wrb c w loaded f) = InvalidDemWarning
            \<and> fst (snd (open_one parser wra wrb c w loaded f)) = loaded"
  proof
    assume a: "disk_entry w (init_demo f) = None \<and> mem w f = None \<and> isl (parse_header parser)
        \<and> \<not> isl (fresh_parse parser (init_demo f)) \<and> \<not> c"
    then have "fst (run_one parser wra w f) = (Map.empty, [])"
      by (intro run_one_unreadable_header) simp_all
    then obtain w1 where "run_one parser wra w f = ((Map.empty, []), w1)"
      by (cases "run_one parser wra w f") auto
    then show "fst (open_one parser wra wrb c w loaded f) = InvalidDemWarning
            \<and> fst (snd (open_one parser wra wrb c w loaded f)) = loaded"
      using a by (simp add: open_one_def on_parsed_cases)
  qed
qed

lemma unreadable_header_eval:
  "disk_entry empty_world (init_demo ''/demos/a.dem'') = None"
  "mem empty_world ''/demos/a.dem'' = None"
  "isl (parse_header unreadable_header_decoder)"
  "\<not> isl (fresh_parse unreadable_header_decoder (init_demo ''/demos/a.dem''))"
  by (simp_all add: disk_entry_def empty_world_def unreadable_header_decoder_def
        fresh_parse_fails_iff)

theorem header_failure_rejected_by_caller_witness:
  "disk_entry empty_world (init_demo ''/demos/a.dem'') = None
   \<and> mem empty_world ''/demos/a.dem'' = None
   \<and> isl (parse_header unreadable_header_decoder)
   \<and> \<not> isl (fresh_parse unreadable_header_decoder (init_demo ''/demos/a.dem''))
   \<and> fst (open_one unreadable_header_decoder Refused Refused False empty_world [] ''/demos/a.dem'')
       = InvalidDemWarning
   \<and> fst (snd (open_one unreadable_header_decoder Refused Refused False empty_world [] ''/demos/a.dem''))
       = []"
  using header_failure_rejected_by_caller
    [where parser = unreadable_header_decoder and w = empty_world and f = "''/demos/a.dem''"
       and c = False and wra = Refused and wrb = Refused and loaded = "[]"]
    unreadable_header_eval
  by blast

text \<open>
  The header of the file cannot be read and every other query of the decoder answers:
  \<^verbatim>\<open>DemoFileParser\<close> returns, and the thread reports the empty header with no error.
\<close>

theorem header_failure_counterexample:
  "isl (parse_header unreadable_header_decoder)
   \<and> \<not> isl (DemoFileParser unreadable_header_decoder Refused empty_world ''/demos/a.dem'')
   \<and> snd (fst (run_one unreadable_header_decoder Refused empty_world ''/demos/a.dem'')) = []"
proof -
  have d: "demo_file (init_demo ''/demos/a.dem'' :: (rat, unit) demo) = ''/demos/a.dem''"
    by (simp add: init_demo_def)
  obtain x where x: "fresh_parse unreadable_header_decoder (init_demo ''/demos/a.dem'') = Inr x"
    using unreadable_header_eval(4)
    by (cases "fresh_parse unreadable_header_decoder (init_demo ''/demos/a.dem'')") auto
  have p: "DemoFileParser unreadable_header_decoder Refused empty_world ''/demos/a.dem''
           = Inr (x, store_to_cache Refused x empty_world)"
    unfolding DemoFileParser_def parse_disk_miss[OF unreadable_header_eval(1)]
      load_from_memory_cache_cases d
    by (simp add: unreadable_header_eval(2) x)
  show ?thesis
    using unreadable_header_eval(3) by (simp add: run_one_def p)
qed

subsection \<open>Storing and reading back\<close>

lemma read_entry_stored_data:
  assumes "demo_file self = demo_file d"
  shows "read_entry self (stored_data d) = d"
  using assms by (cases d; cases self) (simp add: read_entry_def stored_data_def)

lemma readable_stored_data: "readable (stored_data d)"
  by (simp add: readable_def stored_data_def)

lemma stored_data_sel:
  "s_header (stored_data d) = Some (header d)" "s_footsteps (stored_data d) = Some (footsteps d)"
  by (simp_all add: stored_data_def)

lemma find_append_path:
  "find P (xs @ ys) = (case find P xs of None \<Rightarrow> find P ys | Some x \<Rightarrow> Some x)"
  by (induction xs) auto

lemma find_put_file: "find (\<lambda>g. path g = path f) (put_file f dir) = Some f"
proof (cases "isfile dir (path f)")
  case True
  then have "find (\<lambda>g. path g = path f) (map (\<lambda>g. if path g = path f then f else g) dir) = Some f"
    by (induction dir) (auto simp: isfile_def)
  with True show ?thesis by (simp add: put_file_def)
next
  case False
  then have "find (\<lambda>g. path g = path f) dir = None"
    by (simp add: find_path_isfile)
  with False show ?thesis by (simp add: put_file_def find_append_path)
qed

lemma check_filter_path:
  "\<exists>S. check_cache_folder_size B dir = filter (\<lambda>g. path g \<notin> S) dir"
proof -
  from evict_prefix[of "sort_key mtime dir" B "dir_total dir" dir]
  obtain k where
    "evict B (sort_key mtime dir) (dir_total dir, dir)
       = (dir_total dir - dir_total (filter removable (take k (sort_key mtime dir))),
          filter (\<lambda>g. path g \<notin> path ` set (filter removable (take k (sort_key mtime dir)))) dir)"
    by blast
  then show ?thesis by (auto simp: check_is_evict)
qed

lemma find_filter_path:
  "find (\<lambda>g. path g = cp) (filter (\<lambda>g. path g \<notin> S) dir)
   = (if cp \<in> S then None else find (\<lambda>g. path g = cp) dir)"
  by (induction dir) auto

lemma disk_entry_after_check:
  assumes "disk_entry w self = None"
  shows "disk_entry (w\<lparr>disk := check_cache_folder_size B (disk w)\<rparr>) self = None"
proof -
  obtain S where S: "check_cache_folder_size B (disk w) = filter (\<lambda>g. path g \<notin> S) (disk w)"
    using check_filter_path by blast
  show ?thesis
    using assms unfolding disk_entry_def by (simp add: S find_filter_path)
qed

lemma store_to_cache_fields:
  "mem (store_to_cache wr d w) = (mem w)(demo_file d \<mapsto> stored_data d)"
  "disk (store_to_cache wr d w)
   = write_cache_file (external_cache_path (demo_file d)) (stored_data d) wr
       (check_cache_folder_size default_max_size_bytes (disk w))"
  by (simp_all add: store_to_cache_def Let_def)

lemma disk_entry_after_store:
  assumes f: "demo_file self = demo_file d"
  shows "disk_entry (store_to_cache (Written sz mt rm) d w) self = Some (stored_data d)"
    and "disk_entry (store_to_cache (Truncated sz mt rm) d w) self = None"
    and "disk_entry w self = None \<Longrightarrow> disk_entry (store_to_cache Refused d w) self = None"
proof -
  show "disk_entry (store_to_cache (Written sz mt rm) d w) self = Some (stored_data d)"
    unfolding disk_entry_def store_to_cache_fields f write_cache_file_def
    using find_put_file[of "\<lparr>path = external_cache_path (demo_file d), fsize = sz, mtime = mt,
        removable = rm, content = Pickled (stored_data d)\<rparr>"
        "check_cache_folder_size default_max_size_bytes (disk w)"]
    by (simp add: stored_data_sel)
  show "disk_entry (store_to_cache (Truncated sz mt rm) d w) self = None"
    unfolding disk_entry_def store_to_cache_fields f write_cache_file_def
    using find_put_file[of "\<lparr>path = external_cache_path (demo_file d), fsize = sz, mtime = mt,
        removable = rm, content = Corrupt\<rparr>"
        "check_cache_folder_size default_max_size_bytes (disk w)"]
    by simp
  assume "disk_entry w self = None"
  from disk_entry_after_check[OF this, of default_max_size_bytes]
  show "disk_entry (store_to_cache Refused d w) self = None"
    unfolding disk_entry_def store_to_cache_fields write_cache_file_def by simp
qed

lemma get_after_put:
  assumes f: "demo_file self = demo_file d"
    and w: "disk_entry w self = None \<or> (\<exists>sz mt rm. wr = Written sz mt rm)"
  shows "\<exists>w'. parse parser wrb (store_to_cache wr d w) self = Inr (d, w')"
proof (cases wr)
  case (Written sz mt rm)
  show ?thesis
    unfolding Written parse_disk_hit[OF disk_entry_after_store(1)[OF f]]
    by (simp add: read_entry_stored_data[OF f])
next
  case (Truncated sz mt rm)
  show ?thesis
    unfolding Truncated parse_disk_miss[OF disk_entry_after_store(2)[OF f]]
      load_from_memory_cache_cases store_to_cache_fields f
    by (simp add: read_entry_stored_data[OF f] stored_data_sel)
next
  case Refused
  with w have n: "disk_entry w self = None" by auto
  show ?thesis
    unfolding Refused parse_disk_miss[OF disk_entry_after_store(3)[OF f n]]
      load_from_memory_cache_cases store_to_cache_fields f
    by (simp add: read_entry_stored_data[OF f] stored_data_sel)
qed

lemma disk_entry_file:
  "demo_file self = demo_file self' \<Longrightarrow> disk_entry w self = disk_entry w self'"
  by (simp add: disk_entry_def)

text \<open>
  C4. What is stored for a parser object \<open>d\<close> reads back as \<open>d\<close>, field for field
  (the set of players through its list): from the dictionary, and from a cache file
  that holds it. Hence a lookup for the same file right after the store returns
  \<open>d\<close>, whatever the write did, and so does a lookup right after the parse that
  stored it.
\<close>

theorem store_then_load_round_trip:
  "(demo_file self = demo_file d \<longrightarrow> read_entry self (stored_data d) = d)
   \<and> (demo_file self = demo_file d
        \<and> find (\<lambda>f. path f = external_cache_path (demo_file self)) (disk w) = Some g
        \<and> content g = Pickled (stored_data d)
        \<longrightarrow> load_from_cache w self (external_cache_path (demo_file self))
            = (True, d, w\<lparr>mem := (mem w)(demo_file self \<mapsto> stored_data d)\<rparr>))
   \<and> (demo_file self = demo_file d
        \<and> (disk_entry w self = None \<or> (\<exists>sz mt rm. wr = Written sz mt rm))
        \<longrightarrow> (\<exists>w'. parse parser wrb (store_to_cache wr d w) self = Inr (d, w')))
   \<and> (disk_entry w self = None \<and> mem w (demo_file self) = None
        \<and> fresh_parse parser self = Inr d \<and> demo_file self' = demo_file self
        \<longrightarrow> parse parser wr w self = Inr (d, store_to_cache wr d w)
            \<and> (\<exists>w'. parse parserb wrb (store_to_cache wr d w) self' = Inr (d, w')))"
proof (intro conjI impI)
  assume "demo_file self = demo_file d"
  then show "read_entry self (stored_data d) = d" by (rule read_entry_stored_data)
next
  assume a: "demo_file self = demo_file d
        \<and> find (\<lambda>f. path f = external_cache_path (demo_file self)) (disk w) = Some g
        \<and> content g = Pickled (stored_data d)"
  then have "find (\<lambda>f. path f = external_cache_path (demo_file self)) (disk w) = Some g"
    and "content g = Pickled (stored_data d)" by blast+
  then have "disk_entry w self = Some (stored_data d)"
    unfolding disk_entry_def by (simp add: stored_data_sel)
  from load_from_cache_hit(2)[OF this] a
  show "load_from_cache w self (external_cache_path (demo_file self))
            = (True, d, w\<lparr>mem := (mem w)(demo_file self \<mapsto> stored_data d)\<rparr>)"
    by (simp add: read_entry_stored_data)
next
  assume "demo_file self = demo_file d
        \<and> (disk_entry w self = None \<or> (\<exists>sz mt rm. wr = Written sz mt rm))"
  then show "\<exists>w'. parse parser wrb (store_to_cache wr d w) self = Inr (d, w')"
    using get_after_put by blast
next
  assume a: "disk_entry w self = None \<and> mem w (demo_file self) = None
        \<and> fresh_parse parser self = Inr d \<and> demo_file self' = demo_file self"
  then show "parse parser wr w self = Inr (d, store_to_cache wr d w)"
    by (simp add: parse_disk_miss load_from_memory_cache_cases)
next
  assume a: "disk_entry w self = None \<and> mem w (demo_file self) = None
        \<and> fresh_parse parser self = Inr d \<and> demo_file self' = demo_file self"
  then have f: "demo_file self' = demo_file d"
    using fresh_parse_keeps(1)[of parser self d] by simp
  have "disk_entry w self' = None"
    using a disk_entry_file[of self' self w] by simp
  then show "\<exists>w'. parse parserb wrb (store_to_cache wr d w) self' = Inr (d, w')"
    using get_after_put[OF f] by blast
qed

lemma mirage_store_eval:
  "demo_file (init_demo ''/demos/a.dem'' :: (rat, unit) demo) = demo_file mirage_demo"
  "disk_entry empty_world (init_demo ''/demos/a.dem'') = None"
  "mem empty_world (demo_file (init_demo ''/demos/a.dem'' :: (rat, unit) demo)) = None"
  by (simp_all add: init_demo_def mirage_demo_def disk_entry_def empty_world_def)

theorem store_then_load_round_trip_witness:
  "demo_file (init_demo ''/demos/a.dem'' :: (rat, unit) demo) = demo_file mirage_demo
   \<and> disk_entry empty_world (init_demo ''/demos/a.dem'') = None
   \<and> mem empty_world (demo_file (init_demo ''/demos/a.dem'' :: (rat, unit) demo)) = None
   \<and> fresh_parse mirage_decoder (init_demo ''/demos/a.dem'') = Inr mirage_demo
   \<and> read_entry (init_demo ''/demos/a.dem'') (stored_data mirage_demo) = mirage_demo
   \<and> parse mirage_decoder (Written 10 5 True) empty_world (init_demo ''/demos/a.dem'')
       = Inr (mirage_demo, store_to_cache (Written 10 5 True) mirage_demo empty_world)
   \<and> (\<exists>w'. parse unreadable_header_decoder Refused
            (store_to_cache (Written 10 5 True) mirage_demo empty_world) (init_demo ''/demos/a.dem'')
          = Inr (mirage_demo, w'))"
  using store_then_load_round_trip
    [where self = "init_demo ''/demos/a.dem''" and d = mirage_demo and w = empty_world
       and parser = mirage_decoder and wr = "Written 10 5 True" and self' = "init_demo ''/demos/a.dem''"
       and parserb = unreadable_header_decoder and wrb = Refused]
    mirage_store_eval fresh_parse_mirage
  by blast

subsection \<open>The budget and the write\<close>







end
